theory Spec2Isabelle
  imports Complex_Main "HOL-Library.List_Lexorder" "HOL-Library.Char_ord"
begin

section \<open>Typing-delay model\<close>

text \<open>
  \<^verbatim>\<open>calculateTypingDelay(messageLength)\<close> draws \<^verbatim>\<open>Math.random()\<close> twice: once for the
  typing speed and once for the thinking time. The two draws are the parameters \<open>u1\<close> and
  \<open>u2\<close>; \<^verbatim>\<open>Math.random()\<close> returns a number in \<open>[0, 1)\<close>. JavaScript numbers are read
  as real numbers (exact arithmetic), \<^verbatim>\<open>Math.floor\<close> as the floor.
\<close>

definition calculateTypingDelay :: "real \<Rightarrow> real \<Rightarrow> nat \<Rightarrow> int" where
  "calculateTypingDelay u1 u2 messageLength =
     (let baseCharsPerSecond = 3;
          variance = 0.5;
          charsPerSecond = baseCharsPerSecond + (u1 * variance * 2 - variance);
          baseDelay = (real messageLength / charsPerSecond) * 1000;
          thinkingTime = 1000 + u2 * 2000
      in \<lfloor>baseDelay + thinkingTime\<rfloor>)"

definition unit_draw :: "real \<Rightarrow> bool" where
  "unit_draw u = (0 \<le> u \<and> u < 1)"


section \<open>The schedule store\<close>

text \<open>
  Strings are lists of characters whose codes are below 256; \<open>length\<close> counts them as
  JavaScript's \<^verbatim>\<open>.length\<close> does, and their order (of the codes, position by position) is
  the order of SQLite's \<^verbatim>\<open>BINARY\<close> collation.

  One row of the table \<^verbatim>\<open>scheduled_messages\<close>. The column \<^verbatim>\<open>id\<close> is \<open>row_id\<close> here.
  \<^verbatim>\<open>scheduled_time\<close> is the \<^verbatim>\<open>TEXT\<close> that was stored: the route that schedules stores the
  text of \<^verbatim>\<open>toISOString()\<close>, the route that reschedules whatever text it was sent.
  \<^verbatim>\<open>created_at\<close>, which no route reads, is kept as the instant of the clock.
\<close>

record scheduled_message =
  row_id :: nat
  phone_number :: string
  message :: string
  scheduled_time :: string
  created_at :: int
  sent :: bool
  batch_id :: string

text \<open>
  Three functions that the handlers call are not code of the repository, and are parameters
  here. \<open>toISOString t\<close> is the text that \<^verbatim>\<open>Date.prototype.toISOString\<close> gives for the
  instant \<open>t\<close> (milliseconds since the epoch). \<open>datetime x\<close> is what SQLite's
  \<^verbatim>\<open>datetime()\<close> makes of the text \<open>x\<close>: the second since the epoch that its result names,
  or \<open>None\<close> when the result is \<^verbatim>\<open>NULL\<close> (SQLite does not read \<open>x\<close> as a time).
  \<open>real_text v\<close> is the text that a column declared \<^verbatim>\<open>TEXT\<close> keeps of a bound number.
\<close>

record library =
  toISOString :: "int \<Rightarrow> string"
  datetime :: "string \<Rightarrow> int option"
  real_text :: "real \<Rightarrow> string"

text \<open>
  One call of \<^verbatim>\<open>client.sendMessage(chatId, msg.message)\<close>: the row it was made for, the
  chat id it was given, and whether the promise resolved.
\<close>

record send_call =
  entry :: scheduled_message
  chatId :: string
  resolved :: bool

text \<open>
  The process state: the table in rowid order, the \<^verbatim>\<open>AUTOINCREMENT\<close> counter, the global
  \<^verbatim>\<open>isReady\<close>, the calls made on the WhatsApp client, and the payloads of
  \<^verbatim>\<open>broadcast({ type: 'scheduled', data })\<close>.
\<close>

record server =
  scheduled_messages :: "scheduled_message list"
  sqlite_sequence :: nat
  isReady :: bool
  sendMessage_calls :: "send_call list"
  broadcasts :: "scheduled_message list list"

definition initial :: server where
  "initial = \<lparr>scheduled_messages = [], sqlite_sequence = 0, isReady = False,
              sendMessage_calls = [], broadcasts = []\<rparr>"

text \<open>
  \<^verbatim>\<open>SELECT * FROM scheduled_messages WHERE sent = 0 ORDER BY scheduled_time ASC\<close>: the order
  is the order of the stored texts; rows with the same text are taken to keep their rowid
  order.
\<close>

definition select_pending :: "server \<Rightarrow> scheduled_message list" where
  "select_pending s =
     sort_key scheduled_time (filter (\<lambda>r. \<not> sent r) (scheduled_messages s))"

definition broadcast_scheduled :: "server \<Rightarrow> server" where
  "broadcast_scheduled s = s\<lparr>broadcasts := broadcasts s @ [select_pending s]\<rparr>"

text \<open>
  \<^verbatim>\<open>INSERT INTO scheduled_messages (phone_number, message, scheduled_time, batch_id)\<close>:
  the row gets the next id of the \<^verbatim>\<open>AUTOINCREMENT\<close> counter, \<^verbatim>\<open>sent = 0\<close> and the
  current time as \<^verbatim>\<open>created_at\<close>. The result is \<^verbatim>\<open>lastInsertRowid\<close> and the new state.
\<close>

definition insert_row ::
  "string \<Rightarrow> string \<Rightarrow> string \<Rightarrow> string \<Rightarrow> int \<Rightarrow> server \<Rightarrow> nat \<times> server" where
  "insert_row phone msg time batchId now s =
     (let i = sqlite_sequence s + 1
      in (i, s\<lparr>scheduled_messages := scheduled_messages s @
                 [\<lparr>row_id = i, phone_number = phone, message = msg, scheduled_time = time,
                   created_at = now, sent = False, batch_id = batchId\<rparr>],
               sqlite_sequence := i\<rparr>))"

section \<open>Batch scheduler\<close>

text \<open>
  What a handler answers: \<open>Scheduled count ids\<close> and \<open>Success\<close> are the 200 answers
  \<^verbatim>\<open>{ success: true, count, ids }\<close> and \<^verbatim>\<open>{ success: true }\<close>, \<open>Deleted changes\<close> is the
  200 answer of the batch deletion of \<^verbatim>\<open>server.js\<close>, which reports the number of rows
  deleted; the others carry the status and the text of \<^verbatim>\<open>error\<close>. A field that the
  request lacks is \<open>None\<close>. A target time is the instant that \<^verbatim>\<open>new Date(scheduledTime)\<close>
  denotes, in milliseconds since the epoch; a text that denotes none (an invalid date) and
  the bounds of \<^verbatim>\<open>Date\<close>, past which \<^verbatim>\<open>toISOString\<close> throws, are left out. Ids in the
  routes are numbers: another text as id matches no row, as a number does that no row has.
\<close>

datatype response =
    Scheduled nat "nat list"
  | Success
  | Deleted nat
  | Status400 string
  | Status404 string
  | Status500 string

record schedule_request =
  phoneNumber :: "string option"
  messages :: "string list option"
  scheduledTime :: "int option"

text \<open>
  The body of \<^verbatim>\<open>messages.forEach((msg, index) => ...)\<close>. \<open>run_ok index\<close> says whether
  \<^verbatim>\<open>stmt.run\<close> of that iteration succeeds; when it throws, the loop is left and the rows
  written so far stay (the message of the error is written \<open>SqliteError\<close>). \<open>rnd\<close> is the sequence of \<^verbatim>\<open>Math.random()\<close> draws of the loop: the
  call of \<^verbatim>\<open>calculateTypingDelay\<close> in iteration \<open>index\<close> takes draws \<open>2 * index\<close> and
  \<open>2 * index + 1\<close>. \<open>rest \<noteq> []\<close> is \<^verbatim>\<open>index < messages.length - 1\<close>.
\<close>

fun forEach_insert ::
  "library \<Rightarrow> (nat \<Rightarrow> bool) \<Rightarrow> (nat \<Rightarrow> real) \<Rightarrow> string \<Rightarrow> int \<Rightarrow> string \<Rightarrow> int \<Rightarrow>
   string list \<Rightarrow> nat \<Rightarrow> int \<Rightarrow> nat list \<Rightarrow> server \<Rightarrow> (string + nat list) \<times> server" where
  "forEach_insert lib run_ok rnd phone scheduledDate batchId now [] index cumulativeDelay
     insertedIds s = (Inr insertedIds, s)"
| "forEach_insert lib run_ok rnd phone scheduledDate batchId now (msg # rest) index cumulativeDelay
     insertedIds s =
     (if \<not> run_ok index then (Inl ''SqliteError'', s)
      else
        let msgScheduledTime = scheduledDate + cumulativeDelay;
            (lastInsertRowid, s') =
              insert_row phone msg (toISOString lib msgScheduledTime) batchId now s;
            cumulativeDelay' =
              (if rest \<noteq> []
               then cumulativeDelay +
                    calculateTypingDelay (rnd (2 * index)) (rnd (2 * index + 1)) (length msg)
               else cumulativeDelay)
        in forEach_insert lib run_ok rnd phone scheduledDate batchId now rest (index + 1)
             cumulativeDelay' (insertedIds @ [lastInsertRowid]) s')"

text \<open>
  \<^verbatim>\<open>app.post('/api/schedule', ...)\<close> of the WebSocket server (the request carries a list
  \<^verbatim>\<open>messages\<close>). \<open>now\<close> is \<^verbatim>\<open>new Date()\<close>, \<open>batchId\<close> the generated batch id.
\<close>

definition post_api_schedule ::
  "library \<Rightarrow> (nat \<Rightarrow> bool) \<Rightarrow> (nat \<Rightarrow> real) \<Rightarrow> int \<Rightarrow> string \<Rightarrow> schedule_request \<Rightarrow> server \<Rightarrow>
   response \<times> server" where
  "post_api_schedule lib run_ok rnd now batchId req s =
     (case (phoneNumber req, messages req, scheduledTime req) of
        (Some phone, Some msgs, Some scheduledDate) \<Rightarrow>
          if phone = [] \<or> msgs = [] then (Status400 ''Missing required fields'', s)
          else if scheduledDate \<le> now
          then (Status400 ''Scheduled time must be in the future'', s)
          else (case forEach_insert lib run_ok rnd phone scheduledDate batchId now msgs 0 0 [] s of
                  (Inl err, s') \<Rightarrow> (Status500 err, s')
                | (Inr insertedIds, s') \<Rightarrow>
                    (Scheduled (length msgs) insertedIds, broadcast_scheduled s'))
      | _ \<Rightarrow> (Status400 ''Missing required fields'', s))"

text \<open>
  The same route in \<^verbatim>\<open>server.js\<close>: the request carries one text \<^verbatim>\<open>message\<close>, split at
  \<^verbatim>\<open>/\<close>, each part trimmed, empty parts dropped. There is no broadcast. Without a
  \<^verbatim>\<open>message\<close> the first line of the handler throws (\<^verbatim>\<open>message.length\<close>) and the request is
  answered 500.
  \<^verbatim>\<open>String.prototype.trim\<close> strips white space and line terminators; those with a code below
  256 are the space, TAB, LF, VT, FF, CR and the no-break space U+00A0.
\<close>

definition is_space :: "char \<Rightarrow> bool" where
  "is_space c =
     (c \<in> set [CHR '' '', CHR 0x09, CHR 0x0A, CHR 0x0B, CHR 0x0C, CHR 0x0D, CHR 0xA0])"

definition trim :: "string \<Rightarrow> string" where
  "trim m = rev (dropWhile is_space (rev (dropWhile is_space m)))"

fun split :: "char \<Rightarrow> string \<Rightarrow> string list" where
  "split d [] = [[]]"
| "split d (c # cs) =
     (if c = d then [] # split d cs
      else (case split d cs of [] \<Rightarrow> [[c]] | w # ws \<Rightarrow> (c # w) # ws))"

record text_request =
  phoneNumber_t :: "string option"
  message_t :: "string option"
  scheduledTime_t :: "int option"

definition post_api_schedule_text ::
  "library \<Rightarrow> (nat \<Rightarrow> bool) \<Rightarrow> (nat \<Rightarrow> real) \<Rightarrow> int \<Rightarrow> string \<Rightarrow> text_request \<Rightarrow> server \<Rightarrow>
   response \<times> server" where
  "post_api_schedule_text lib run_ok rnd now batchId req s =
     (case message_t req of
        None \<Rightarrow> (Status500 ''TypeError'', s)
      | Some text \<Rightarrow>
          (case (phoneNumber_t req, scheduledTime_t req) of
             (Some phone, Some scheduledDate) \<Rightarrow>
               if phone = [] \<or> text = [] then (Status400 ''Missing required fields'', s)
               else if scheduledDate \<le> now
               then (Status400 ''Scheduled time must be in the future'', s)
               else
                 let msgs = filter (\<lambda>m. length m > 0) (map trim (split CHR ''/'' text))
                 in if length msgs = 0 then (Status400 ''No valid messages found'', s)
                    else (case forEach_insert lib run_ok rnd phone scheduledDate batchId now
                                 msgs 0 0 [] s of
                            (Inl err, s') \<Rightarrow> (Status500 err, s')
                          | (Inr insertedIds, s') \<Rightarrow> (Scheduled (length msgs) insertedIds, s'))
           | _ \<Rightarrow> (Status400 ''Missing required fields'', s)))"

section \<open>Listing, rescheduling and deleting\<close>

text \<open>
  The routes of the WebSocket server. \<^verbatim>\<open>server.js\<close> has the listing and the two
  \<^verbatim>\<open>DELETE\<close> routes with the same statements and no broadcast, and no \<^verbatim>\<open>PUT\<close> route.
  The statements of these routes are taken to run without a database error.
\<close>

definition get_api_scheduled :: "server \<Rightarrow> scheduled_message list" where
  "get_api_scheduled s = select_pending s"

text \<open>
  The value of \<^verbatim>\<open>req.body.scheduledTime\<close> (here \<open>newValue\<close>) in the \<^verbatim>\<open>PUT\<close> route, which hands it to
  \<^verbatim>\<open>stmt.run\<close> as it came: a string, a number, \<^verbatim>\<open>null\<close>, a boolean, or nothing
  (\<^verbatim>\<open>undefined\<close>). A JSON array or object is left out.
\<close>

datatype request_value = Text string | Number real | Null | Boolean bool | Undefined

text \<open>
  \<^verbatim>\<open>UPDATE scheduled_messages SET scheduled_time = ? WHERE id = ? AND sent = 0\<close> with a text
  bound to the first parameter, and the answer of the route: \<open>changes\<close> is the number of rows
  the statement matched.
\<close>

definition update_scheduled_time :: "nat \<Rightarrow> string \<Rightarrow> server \<Rightarrow> response \<times> server" where
  "update_scheduled_time i newTime s =
     (let changes = length (filter (\<lambda>r. row_id r = i \<and> \<not> sent r) (scheduled_messages s));
          s' = s\<lparr>scheduled_messages :=
                   map (\<lambda>r. if row_id r = i \<and> \<not> sent r then r\<lparr>scheduled_time := newTime\<rparr> else r)
                     (scheduled_messages s)\<rparr>
      in if changes > 0 then (Success, broadcast_scheduled s')
         else (Status404 ''Message not found'', s'))"

text \<open>
  \<^verbatim>\<open>app.put('/api/scheduled/:id', ...)\<close>. The value is not parsed or compared with the clock.
  A string is bound as text and a number as a \<^verbatim>\<open>REAL\<close>, which the column keeps as text.
  \<^verbatim>\<open>null\<close> is bound as \<^verbatim>\<open>NULL\<close>: the column is declared \<^verbatim>\<open>NOT NULL\<close>, so the statement
  fails when it matches a row (and changes nothing), and matches nothing otherwise. A boolean
  or \<^verbatim>\<open>undefined\<close> cannot be bound: \<^verbatim>\<open>stmt.run\<close> throws before the statement runs. What
  is thrown is caught and answered with 500.
\<close>

definition put_api_scheduled :: "library \<Rightarrow> nat \<Rightarrow> request_value \<Rightarrow> server \<Rightarrow> response \<times> server" where
  "put_api_scheduled lib i newValue s =
     (case newValue of
        Text newTime \<Rightarrow> update_scheduled_time i newTime s
      | Number v \<Rightarrow> update_scheduled_time i (real_text lib v) s
      | Null \<Rightarrow>
          if length (filter (\<lambda>r. row_id r = i \<and> \<not> sent r) (scheduled_messages s)) > 0
          then (Status500 ''NOT NULL constraint failed: scheduled_messages.scheduled_time'', s)
          else (Status404 ''Message not found'', s)
      | Boolean b \<Rightarrow>
          (Status500 ''SQLite3 can only bind numbers, strings, bigints, buffers, and null'', s)
      | Undefined \<Rightarrow>
          (Status500 ''SQLite3 can only bind numbers, strings, bigints, buffers, and null'', s))"

text \<open>\<^verbatim>\<open>DELETE FROM scheduled_messages WHERE id = ? AND sent = 0\<close>\<close>

definition delete_api_scheduled :: "nat \<Rightarrow> server \<Rightarrow> response \<times> server" where
  "delete_api_scheduled i s =
     (let changes = length (filter (\<lambda>r. row_id r = i \<and> \<not> sent r) (scheduled_messages s));
          s' = s\<lparr>scheduled_messages :=
                   filter (\<lambda>r. \<not> (row_id r = i \<and> \<not> sent r)) (scheduled_messages s)\<rparr>
      in if changes > 0 then (Success, broadcast_scheduled s')
         else (Status404 ''Message not found'', s'))"

text \<open>\<^verbatim>\<open>DELETE FROM scheduled_messages WHERE batch_id = ? AND sent = 0\<close>\<close>

definition delete_api_scheduled_batch :: "string \<Rightarrow> server \<Rightarrow> response \<times> server" where
  "delete_api_scheduled_batch batchId s =
     (let s' = s\<lparr>scheduled_messages :=
                   filter (\<lambda>r. \<not> (batch_id r = batchId \<and> \<not> sent r)) (scheduled_messages s)\<rparr>
      in (Success, broadcast_scheduled s'))"

text \<open>The batch deletion of \<^verbatim>\<open>server.js\<close>: the same statement, the count in the answer.\<close>

definition delete_api_scheduled_batch_count :: "string \<Rightarrow> server \<Rightarrow> response \<times> server" where
  "delete_api_scheduled_batch_count batchId s =
     (let changes = length (filter (\<lambda>r. batch_id r = batchId \<and> \<not> sent r) (scheduled_messages s));
          s' = s\<lparr>scheduled_messages :=
                   filter (\<lambda>r. \<not> (batch_id r = batchId \<and> \<not> sent r)) (scheduled_messages s)\<rparr>
      in (Deleted changes, s'))"

section \<open>Dispatcher\<close>

text \<open>
  The query of the tick,
  \<^verbatim>\<open>SELECT * FROM scheduled_messages WHERE sent = 0 AND datetime(scheduled_time) <= datetime(?)\<close>,
  with \<^verbatim>\<open>now.toISOString()\<close> bound to the parameter. \<^verbatim>\<open>datetime()\<close> gives a time to the whole
  second, as a text \<^verbatim>\<open>YYYY-MM-DD HH:MM:SS\<close> (with a \<^verbatim>\<open>-\<close> in front for a year before 0), or
  \<^verbatim>\<open>NULL\<close>; a comparison with \<^verbatim>\<open>NULL\<close> selects nothing. The clock is taken to show a
  year from 0000 to 9999: its text is read as the second \<open>clock_second now\<close>, and against
  such a text the order of the results as texts is the order of the seconds they name.
  The query has no \<^verbatim>\<open>ORDER BY\<close>: the rows come in rowid order, the order of the table scan.
  The callback of \<^verbatim>\<open>server.js\<close> has the same query and the same loop; it runs every
  minute instead of every five seconds, does not broadcast, and pauses between 500 and
  1500 ms. Neither the period nor the pause nor the broadcast touches the table or the
  calls of \<^verbatim>\<open>sendMessage\<close>.
\<close>

definition clock_second :: "int \<Rightarrow> int" where
  "clock_second now = now div 1000"

definition is_due :: "library \<Rightarrow> int \<Rightarrow> scheduled_message \<Rightarrow> bool" where
  "is_due lib now r =
     (case datetime lib (scheduled_time r) of
        None \<Rightarrow> False
      | Some second \<Rightarrow> second \<le> clock_second now)"

definition select_due :: "library \<Rightarrow> int \<Rightarrow> server \<Rightarrow> scheduled_message list" where
  "select_due lib now s = filter (\<lambda>r. \<not> sent r \<and> is_due lib now r) (scheduled_messages s)"

text \<open>\<^verbatim>\<open>UPDATE scheduled_messages SET sent = 1 WHERE id = ?\<close>\<close>

definition mark_sent :: "nat \<Rightarrow> server \<Rightarrow> server" where
  "mark_sent i s =
     s\<lparr>scheduled_messages :=
         map (\<lambda>r. if row_id r = i then r\<lparr>sent := True\<rparr> else r) (scheduled_messages s)\<rparr>"

definition is_digit :: "char \<Rightarrow> bool" where
  "is_digit c = (c \<in> set ''0123456789'')"

definition to_chatId :: "string \<Rightarrow> string" where
  "to_chatId phone =
     (if CHR ''@'' \<in> set phone then phone else filter is_digit phone @ ''@c.us'')"

text \<open>
  What one iteration of the loop meets: \<^verbatim>\<open>sendMessage\<close> rejects; or it resolves and the
  \<^verbatim>\<open>UPDATE\<close> throws; or both succeed. The \<^verbatim>\<open>catch\<close> of the iteration only logs.
\<close>

datatype outcome = Send_rejected | Update_failed | Delivered

definition dispatch_one ::
  "(scheduled_message \<Rightarrow> outcome) \<Rightarrow> scheduled_message \<Rightarrow> server \<Rightarrow> server" where
  "dispatch_one transport msg s =
     (let call = \<lparr>entry = msg, chatId = to_chatId (phone_number msg),
                  resolved = (transport msg \<noteq> Send_rejected)\<rparr>;
          s1 = s\<lparr>sendMessage_calls := sendMessage_calls s @ [call]\<rparr>
      in case transport msg of
           Send_rejected \<Rightarrow> s1
         | Update_failed \<Rightarrow> s1
         | Delivered \<Rightarrow> broadcast_scheduled (mark_sent (row_id msg) s1))"

fun send_loop ::
  "(scheduled_message \<Rightarrow> outcome) \<Rightarrow> scheduled_message list \<Rightarrow> server \<Rightarrow> server" where
  "send_loop transport [] s = s"
| "send_loop transport (msg # messagesToSend) s =
     send_loop transport messagesToSend (dispatch_one transport msg s)"

definition cron_tick ::
  "library \<Rightarrow> (scheduled_message \<Rightarrow> outcome) \<Rightarrow> int \<Rightarrow> server \<Rightarrow> server" where
  "cron_tick lib transport now s =
     (if \<not> isReady s then s else send_loop transport (select_due lib now s) s)"

text \<open>The callback of \<^verbatim>\<open>server.js\<close>: the same loop without the broadcast.\<close>

definition dispatch_one_minute ::
  "(scheduled_message \<Rightarrow> outcome) \<Rightarrow> scheduled_message \<Rightarrow> server \<Rightarrow> server" where
  "dispatch_one_minute transport msg s =
     (let call = \<lparr>entry = msg, chatId = to_chatId (phone_number msg),
                  resolved = (transport msg \<noteq> Send_rejected)\<rparr>;
          s1 = s\<lparr>sendMessage_calls := sendMessage_calls s @ [call]\<rparr>
      in case transport msg of
           Send_rejected \<Rightarrow> s1
         | Update_failed \<Rightarrow> s1
         | Delivered \<Rightarrow> mark_sent (row_id msg) s1)"

fun send_loop_minute ::
  "(scheduled_message \<Rightarrow> outcome) \<Rightarrow> scheduled_message list \<Rightarrow> server \<Rightarrow> server" where
  "send_loop_minute transport [] s = s"
| "send_loop_minute transport (msg # messagesToSend) s =
     send_loop_minute transport messagesToSend (dispatch_one_minute transport msg s)"

definition cron_tick_minute ::
  "library \<Rightarrow> (scheduled_message \<Rightarrow> outcome) \<Rightarrow> int \<Rightarrow> server \<Rightarrow> server" where
  "cron_tick_minute lib transport now s =
     (if \<not> isReady s then s else send_loop_minute transport (select_due lib now s) s)"

text \<open>
  \<^verbatim>\<open>node-cron\<close> starts the callback at every tick, whether or not an earlier invocation has
  returned, and every invocation keeps its own \<^verbatim>\<open>messagesToSend\<close>. An invocation gives way
  to the others only at an \<^verbatim>\<open>await\<close>; the model takes one iteration of the loop as one step.
  \<open>Fire now\<close> starts an invocation: it reads \<^verbatim>\<open>isReady\<close> and runs the query. \<open>Resume k\<close> lets
  invocation \<open>k\<close> (in the order of their starts) run its next iteration, if it has one.
\<close>

datatype event = Fire int | Resume nat

fun event_loop ::
  "library \<Rightarrow> (scheduled_message \<Rightarrow> outcome) \<Rightarrow> event list \<Rightarrow> scheduled_message list list \<Rightarrow>
   server \<Rightarrow> server" where
  "event_loop lib transport [] running s = s"
| "event_loop lib transport (Fire now # events) running s =
     event_loop lib transport events
       (running @ [if isReady s then select_due lib now s else []]) s"
| "event_loop lib transport (Resume k # events) running s =
     (if k < length running
      then (case running ! k of
              [] \<Rightarrow> event_loop lib transport events running s
            | msg # messagesToSend \<Rightarrow>
                event_loop lib transport events (running[k := messagesToSend])
                  (dispatch_one transport msg s))
      else event_loop lib transport events running s)"

section \<open>Sequences of operations\<close>

datatype operation =
    Schedule "nat \<Rightarrow> bool" "nat \<Rightarrow> real" int string schedule_request
  | Reschedule nat request_value
  | Delete_one nat
  | Delete_batch string
  | Tick "scheduled_message \<Rightarrow> outcome" int
  | Ready bool

fun apply_op :: "library \<Rightarrow> operation \<Rightarrow> server \<Rightarrow> server" where
  "apply_op lib (Schedule run_ok rnd now batchId req) s =
     snd (post_api_schedule lib run_ok rnd now batchId req s)"
| "apply_op lib (Reschedule i newValue) s = snd (put_api_scheduled lib i newValue s)"
| "apply_op lib (Delete_one i) s = snd (delete_api_scheduled i s)"
| "apply_op lib (Delete_batch b) s = snd (delete_api_scheduled_batch b s)"
| "apply_op lib (Tick transport now) s = cron_tick lib transport now s"
| "apply_op lib (Ready b) s = s\<lparr>isReady := b\<rparr>"

fun run :: "library \<Rightarrow> operation list \<Rightarrow> server \<Rightarrow> server" where
  "run lib [] s = s"
| "run lib (op # ops) s = run lib ops (apply_op lib op s)"

section \<open>Auxiliary definitions\<close>

text \<open>
  Functions that say what the loops of the handlers compute, the invariants of the store,
  and the concrete inputs of the examples. The properties are stated and proved with them.
\<close>

subsection \<open>What the loops compute\<close>

text \<open>A request is rejected: the answer is a 400 and the state is the one before the request.\<close>

definition rejected :: "response \<times> server \<Rightarrow> server \<Rightarrow> bool" where
  "rejected res s = (case fst res of Status400 reason \<Rightarrow> snd res = s | _ \<Rightarrow> False)"

text \<open>The rows of \<open>s'\<close> that come after the rows of \<open>s\<close>.\<close>

definition new_rows :: "server \<Rightarrow> server \<Rightarrow> scheduled_message list" where
  "new_rows s s' = drop (length (scheduled_messages s)) (scheduled_messages s')"

text \<open>The rows that \<open>forEach_insert\<close> appends when every write succeeds; \<open>n\<close> is the
  \<^verbatim>\<open>AUTOINCREMENT\<close> counter before the loop.\<close>

fun batch_rows ::
  "library \<Rightarrow> (nat \<Rightarrow> real) \<Rightarrow> string \<Rightarrow> int \<Rightarrow> string \<Rightarrow> int \<Rightarrow> string list \<Rightarrow> nat \<Rightarrow> int \<Rightarrow>
   nat \<Rightarrow> scheduled_message list" where
  "batch_rows lib rnd phone scheduledDate batchId now [] index cumulativeDelay n = []"
| "batch_rows lib rnd phone scheduledDate batchId now (msg # rest) index cumulativeDelay n =
     \<lparr>row_id = n + 1, phone_number = phone, message = msg,
      scheduled_time = toISOString lib (scheduledDate + cumulativeDelay), created_at = now,
      sent = False,
      batch_id = batchId\<rparr> #
     batch_rows lib rnd phone scheduledDate batchId now rest (index + 1)
       (if rest \<noteq> []
        then cumulativeDelay +
             calculateTypingDelay (rnd (2 * index)) (rnd (2 * index + 1)) (length msg)
        else cumulativeDelay) (n + 1)"

text \<open>How many writes of a loop of \<open>n\<close> iterations succeed before the first failure.\<close>

fun writes_done :: "(nat \<Rightarrow> bool) \<Rightarrow> nat \<Rightarrow> nat \<Rightarrow> nat" where
  "writes_done run_ok index 0 = 0"
| "writes_done run_ok index (Suc n) =
     (if run_ok index then Suc (writes_done run_ok (index + 1) n) else 0)"

text \<open>The call of \<^verbatim>\<open>sendMessage\<close> that one iteration of the dispatcher loop makes for a row.\<close>

definition call_of :: "(scheduled_message \<Rightarrow> outcome) \<Rightarrow> scheduled_message \<Rightarrow> send_call" where
  "call_of transport msg =
     \<lparr>entry = msg, chatId = to_chatId (phone_number msg), resolved = (transport msg \<noteq> Send_rejected)\<rparr>"

text \<open>The effect on a row of the \<^verbatim>\<open>UPDATE ... SET sent = 1\<close> statements for the ids in \<open>D\<close>.\<close>

definition mark_all :: "nat set \<Rightarrow> scheduled_message \<Rightarrow> scheduled_message" where
  "mark_all D r = (if row_id r \<in> D then r\<lparr>sent := True\<rparr> else r)"

text \<open>The ids of the rows of a list whose send and update both succeed.\<close>

definition delivered_ids :: "(scheduled_message \<Rightarrow> outcome) \<Rightarrow> scheduled_message list \<Rightarrow> nat set" where
  "delivered_ids transport q = row_id ` {m \<in> set q. transport m = Delivered}"

text \<open>The text that the \<^verbatim>\<open>PUT\<close> route stores for a value, if it stores one: a text as it is,
  a number as the text the column keeps of it, nothing for a value that is refused.\<close>

definition stored_text :: "library \<Rightarrow> request_value \<Rightarrow> string option" where
  "stored_text lib newValue =
     (case newValue of Text newTime \<Rightarrow> Some newTime | Number v \<Rightarrow> Some (real_text lib v)
      | _ \<Rightarrow> None)"

text \<open>The instants whose texts \<open>forEach_insert\<close> stores when every write succeeds.\<close>

fun batch_instants :: "(nat \<Rightarrow> real) \<Rightarrow> int \<Rightarrow> string list \<Rightarrow> nat \<Rightarrow> int \<Rightarrow> int list" where
  "batch_instants rnd scheduledDate [] index cumulativeDelay = []"
| "batch_instants rnd scheduledDate (msg # rest) index cumulativeDelay =
     (scheduledDate + cumulativeDelay) #
     batch_instants rnd scheduledDate rest (index + 1)
       (if rest \<noteq> []
        then cumulativeDelay +
             calculateTypingDelay (rnd (2 * index)) (rnd (2 * index + 1)) (length msg)
        else cumulativeDelay)"

subsection \<open>Invariants\<close>

text \<open>Row ids are unique and none is above the \<^verbatim>\<open>AUTOINCREMENT\<close> counter.\<close>

definition store_ok :: "server \<Rightarrow> bool" where
  "store_ok s =
     (distinct (map row_id (scheduled_messages s)) \<and>
      (\<forall>r\<in>set (scheduled_messages s). row_id r \<le> sqlite_sequence s))"

text \<open>The ids of the rows whose \<^verbatim>\<open>sendMessage\<close> call resolved, in the order of the calls.\<close>

definition delivered :: "server \<Rightarrow> nat list" where
  "delivered s = map (\<lambda>c. row_id (entry c)) (filter resolved (sendMessage_calls s))"

text \<open>The operation is not a tick in which the \<^verbatim>\<open>UPDATE\<close> after a resolved send can fail.\<close>

fun updates_succeed :: "operation \<Rightarrow> bool" where
  "updates_succeed (Tick transport now) = (\<forall>m. transport m \<noteq> Update_failed)"
| "updates_succeed other = True"

text \<open>No id was delivered twice, and every delivered id belongs to a row that is marked sent.\<close>

definition delivered_once :: "server \<Rightarrow> bool" where
  "delivered_once s =
     (distinct (delivered s) \<and>
      (\<forall>i\<in>set (delivered s). \<exists>r\<in>set (scheduled_messages s). row_id r = i \<and> sent r))"

subsection \<open>Requests, stores and transports of the examples\<close>

text \<open>The library functions on the values of the examples. \<open>example_instants\<close> lists the
  texts of \<^verbatim>\<open>toISOString\<close> for the instants that are scheduled, \<open>example_readings\<close> how
  \<^verbatim>\<open>datetime()\<close> reads the stored texts: the same instants to the second, and \<^verbatim>\<open>7000.0\<close>
  as the Julian day 7000 (the epoch is the Julian day 2440587.5). A text that is not listed,
  such as \<^verbatim>\<open>1700000000000.0\<close> (no Julian day that SQLite accepts), reads as \<^verbatim>\<open>NULL\<close>.
  The examples use the functions on these values only.\<close>

definition example_instants :: "(int \<times> string) list" where
  "example_instants =
     [(1000, ''1970-01-01T00:00:01.000Z''), (2000, ''1970-01-01T00:00:02.000Z''),
      (3000, ''1970-01-01T00:00:03.000Z''), (5000, ''1970-01-01T00:00:05.000Z''),
      (7000, ''1970-01-01T00:00:07.000Z''), (9000, ''1970-01-01T00:00:09.000Z''),
      (50400000, ''1970-01-01T14:00:00.000Z''), (50403000, ''1970-01-01T14:00:03.000Z''),
      (50409000, ''1970-01-01T14:00:09.000Z'')]"

definition example_readings :: "(string \<times> int) list" where
  "example_readings =
     [(''1970-01-01T00:00:01.000Z'', 1), (''1970-01-01T00:00:02.000Z'', 2),
      (''1970-01-01T00:00:03.000Z'', 3), (''1970-01-01T00:00:05.000Z'', 5),
      (''1970-01-01T00:00:07.000Z'', 7), (''1970-01-01T00:00:09.000Z'', 9),
      (''1970-01-01T14:00:00.000Z'', 50400), (''1970-01-01T14:00:03.000Z'', 50403),
      (''1970-01-01T14:00:09.000Z'', 50409), (''7000.0'', - 210261960000)]"

definition example_library :: library where
  "example_library =
     \<lparr>toISOString = (\<lambda>t. case map_of example_instants t of Some x \<Rightarrow> x | None \<Rightarrow> []),
      datetime = map_of example_readings,
      real_text = (\<lambda>v. if v = 7000 then ''7000.0''
                         else if v = 1700000000000 then ''1700000000000.0'' else [])\<rparr>"

text \<open>Every write succeeds.\<close>

definition always :: "nat \<Rightarrow> bool" where
  "always index = True"

text \<open>The first write succeeds, the second fails.\<close>

definition first_only :: "nat \<Rightarrow> bool" where
  "first_only index = (index < 1)"

text \<open>Every \<^verbatim>\<open>Math.random()\<close> draw is 0.5.\<close>

definition half :: "nat \<Rightarrow> real" where
  "half index = 0.5"

text \<open>The three messages of the README, for 14:00:00 on the first day of the epoch.\<close>

definition hangout :: schedule_request where
  "hangout = \<lparr>phoneNumber = Some ''5511999990000@c.us'',
     messages = Some [''Hey'', ''How are you?'', ''Want to hang out?''],
     scheduledTime = Some 50400000\<rparr>"

text \<open>A request whose only message is three spaces, and the same text for the route of
  \<^verbatim>\<open>server.js\<close>.\<close>

definition blank_request :: schedule_request where
  "blank_request = \<lparr>phoneNumber = Some ''5511999990000@c.us'', messages = Some [''   ''],
     scheduledTime = Some 50400000\<rparr>"

definition blank_text_request :: text_request where
  "blank_text_request = \<lparr>phoneNumber_t = Some ''5511999990000@c.us'', message_t = Some ''   '',
     scheduledTime_t = Some 50400000\<rparr>"

text \<open>A request with one message.\<close>

definition one_message :: "string \<Rightarrow> int \<Rightarrow> schedule_request" where
  "one_message m t = \<lparr>phoneNumber = Some ''5511999990000@c.us'', messages = Some [m],
     scheduledTime = Some t\<rparr>"

text \<open>Every send and every update succeeds; in \<open>second_fails\<close> the send of row 2 is rejected.\<close>

definition all_delivered :: "scheduled_message \<Rightarrow> outcome" where
  "all_delivered m = Delivered"

definition second_fails :: "scheduled_message \<Rightarrow> outcome" where
  "second_fails m = (if row_id m = 2 then Send_rejected else Delivered)"

text \<open>A message for the instant 9000 is scheduled first, a message for 5000 second; then the
  client is ready and the tick runs at 10000.\<close>

definition late_then_early :: "operation list" where
  "late_then_early =
     [Schedule always half 1000 ''b1'' (one_message ''second'' 9000),
      Schedule always half 2000 ''b2'' (one_message ''first'' 5000),
      Ready True,
      Tick all_delivered 10000]"

text \<open>Attempts to change row 1 after it was sent.\<close>

definition tamper :: "operation list" where
  "tamper =
     [Reschedule 1 (Text ''1970-01-01T00:00:07.000Z''), Reschedule 1 Null, Delete_one 1,
      Delete_batch ''b1'', Tick all_delivered 20000]"

text \<open>A second invocation of the tick starts after the first one has run one iteration.\<close>

definition overlap :: "event list" where
  "overlap = [Fire 5000, Resume 0, Fire 10000, Resume 1, Resume 0]"

text \<open>Two pending rows and a sent one; the batch ids \<open>17\<close> and \<open>17a\<close> share a prefix.
  \<open>pending1\<close> is its first row, \<open>sent_row\<close> is row 1 of \<open>late_then_early\<close> once sent.\<close>

definition store3 :: server where
  "store3 = initial\<lparr>scheduled_messages :=
     [\<lparr>row_id = 1, phone_number = ''5511@c.us'', message = ''a'',
       scheduled_time = ''1970-01-01T00:00:09.000Z'', created_at = 0, sent = False,
       batch_id = ''17a''\<rparr>,
      \<lparr>row_id = 2, phone_number = ''5511@c.us'', message = ''b'',
       scheduled_time = ''1970-01-01T00:00:09.000Z'', created_at = 0, sent = False,
       batch_id = ''17''\<rparr>,
      \<lparr>row_id = 3, phone_number = ''5511@c.us'', message = ''c'',
       scheduled_time = ''1970-01-01T00:00:01.000Z'', created_at = 0, sent = True,
       batch_id = ''17a''\<rparr>], sqlite_sequence := 3\<rparr>"

definition pending1 :: scheduled_message where
  "pending1 = \<lparr>row_id = 1, phone_number = ''5511@c.us'', message = ''a'',
       scheduled_time = ''1970-01-01T00:00:09.000Z'', created_at = 0, sent = False,
       batch_id = ''17a''\<rparr>"

definition sent_row :: scheduled_message where
  "sent_row = \<lparr>row_id = 1, phone_number = ''5511999990000@c.us'', message = ''second'',
     scheduled_time = ''1970-01-01T00:00:09.000Z'', created_at = 1000, sent = True,
     batch_id = ''b1''\<rparr>"

text \<open>Three pending rows, for the instants 1000, 2000 and 3000, and a ready client.\<close>

definition entry_at :: "nat \<Rightarrow> int \<Rightarrow> bool \<Rightarrow> scheduled_message" where
  "entry_at i t b = \<lparr>row_id = i, phone_number = ''5511 99'', message = ''hi'',
     scheduled_time = toISOString example_library t, created_at = 0, sent = b,
     batch_id = ''17''\<rparr>"

definition three_due :: server where
  "three_due = \<lparr>scheduled_messages = [entry_at 1 1000 False, entry_at 2 2000 False, entry_at 3 3000 False],
     sqlite_sequence = 3, isReady = True, sendMessage_calls = [], broadcasts = []\<rparr>"

section \<open>Bounds of the typing delay\<close>

lemma baseDelay_nonneg:
  assumes "unit_draw u1"
  shows "0 \<le> real L / (3 + (u1 * 0.5 * 2 - 0.5)) * 1000"
  using assms by (simp add: unit_draw_def)

lemma baseDelay_upper:
  assumes "unit_draw u1"
  shows "real L / (3 + (u1 * 0.5 * 2 - 0.5)) * 1000 \<le> real L / 2.5 * 1000"
proof -
  define c where "c = 3 + (u1 * 0.5 * 2 - 0.5)"
  have c: "(5/2::real) \<le> c"
    using assms by (simp add: unit_draw_def c_def)
  have "real L / c \<le> real L / (5/2)"
    by (rule divide_left_mono) (use c in auto)
  then have "real L / c * 1000 \<le> real L / (5/2) * 1000"
    by (rule mult_right_mono) simp
  moreover have "(2.5::real) = 5/2"
    by simp
  ultimately show ?thesis
    unfolding c_def by metis
qed

text \<open>
  C4. For every message length \<open>L\<close> and every pair of draws in \<open>[0, 1)\<close>, the delay is an
  integer that is at least 1000 (so non-negative) and at most \<open>1000 + L / 2.5 * 1000 + 3000\<close>.
\<close>

theorem calculateTypingDelay_bounds:
  assumes "unit_draw u1" and "unit_draw u2"
  shows "1000 \<le> calculateTypingDelay u1 u2 L \<and>
         real_of_int (calculateTypingDelay u1 u2 L) \<le> 1000 + real L / 2.5 * 1000 + 3000"
proof -
  let ?b = "real L / (3 + (u1 * 0.5 * 2 - 0.5)) * 1000"
  let ?t = "1000 + u2 * 2000"
  have d: "calculateTypingDelay u1 u2 L = \<lfloor>?b + ?t\<rfloor>"
    by (simp add: calculateTypingDelay_def Let_def)
  have t: "1000 \<le> ?t" "?t < 3000"
    using assms(2) by (simp_all add: unit_draw_def)
  have "(1000::real) \<le> ?b + ?t"
    using baseDelay_nonneg[OF assms(1), of L] t by linarith
  then have "real_of_int 1000 \<le> ?b + ?t"
    by simp
  then have "1000 \<le> \<lfloor>?b + ?t\<rfloor>"
    by (subst le_floor_iff)
  moreover have "real_of_int \<lfloor>?b + ?t\<rfloor> \<le> ?b + ?t"
    by (rule of_int_floor_le)
  moreover have "?b + ?t \<le> 1000 + real L / 2.5 * 1000 + 3000"
    using baseDelay_upper[OF assms(1), of L] t by linarith
  ultimately show ?thesis
    unfolding d by linarith
qed

theorem calculateTypingDelay_bounds_witness:
  "unit_draw 0.5 \<and> calculateTypingDelay 0.5 0.5 12 = 6000 \<and>
   1000 \<le> calculateTypingDelay 0.5 0.5 12 \<and>
   real_of_int (calculateTypingDelay 0.5 0.5 12) \<le> 1000 + real 12 / 2.5 * 1000 + 3000"
  using calculateTypingDelay_bounds[of "0.5" "0.5" 12]
  by (simp add: unit_draw_def calculateTypingDelay_def)

section \<open>Deleting a batch and rescheduling\<close>

lemma broadcast_scheduled_fields [simp]:
  "scheduled_messages (broadcast_scheduled s) = scheduled_messages s"
  "sqlite_sequence (broadcast_scheduled s) = sqlite_sequence s"
  "isReady (broadcast_scheduled s) = isReady s"
  "sendMessage_calls (broadcast_scheduled s) = sendMessage_calls s"
  by (simp_all add: broadcast_scheduled_def)

lemma set_select_pending:
  "set (select_pending s) = {r \<in> set (scheduled_messages s). \<not> sent r}"
  by (auto simp: select_pending_def)

lemma map_if_none:
  "\<forall>r\<in>set xs. \<not> P r \<Longrightarrow> map (\<lambda>r. if P r then f r else r) xs = xs"
  by (induction xs) auto

lemma filter_none:
  "\<forall>r\<in>set xs. \<not> P r \<Longrightarrow> filter P xs = []"
  by (induction xs) auto

lemma filter_map_if_other:
  "(\<And>r. P r \<Longrightarrow> \<not> Q r) \<Longrightarrow> (\<And>r. P r \<Longrightarrow> \<not> Q (f r)) \<Longrightarrow>
   filter Q (map (\<lambda>r. if P r then f r else r) xs) = filter Q xs"
  by (induction xs) auto

text \<open>
  C7. Deleting a batch answers success and removes exactly the unsent rows whose
  \<^verbatim>\<open>batch_id\<close> equals the given id: no such row is left, the rows of every other batch id
  (a proper prefix of the given id included) and the sent rows of the same batch stay as
  they were, in the same order, and no row appears that was not there.
\<close>

theorem delete_batch_exact:
  "fst (delete_api_scheduled_batch b s) = Success \<and>
   filter (\<lambda>r. batch_id r = b \<and> \<not> sent r)
     (scheduled_messages (snd (delete_api_scheduled_batch b s))) = [] \<and>
   filter (\<lambda>r. batch_id r \<noteq> b \<or> sent r)
     (scheduled_messages (snd (delete_api_scheduled_batch b s))) =
   filter (\<lambda>r. batch_id r \<noteq> b \<or> sent r) (scheduled_messages s) \<and>
   (\<forall>r. r \<in> set (scheduled_messages (snd (delete_api_scheduled_batch b s))) \<longleftrightarrow>
        r \<in> set (scheduled_messages s) \<and> (batch_id r \<noteq> b \<or> sent r))"
  by (auto simp: delete_api_scheduled_batch_def Let_def filter_empty_conv intro: filter_cong)

text \<open>
  A store with an unsent row of batch \<open>17a\<close>, an unsent row of batch \<open>17\<close> and a sent row
  of batch \<open>17a\<close>: deleting batch \<open>17a\<close> leaves rows 2 and 3.
\<close>

theorem delete_batch_exact_witness:
  "map row_id (scheduled_messages store3) = [1, 2, 3] \<and>
   map batch_id (scheduled_messages store3) = [''17a'', ''17'', ''17a''] \<and>
   map sent (scheduled_messages store3) = [False, False, True] \<and>
   map row_id (scheduled_messages (snd (delete_api_scheduled_batch ''17a'' store3))) = [2, 3] \<and>
   filter (\<lambda>r. batch_id r \<noteq> ''17a'' \<or> sent r)
     (scheduled_messages (snd (delete_api_scheduled_batch ''17a'' store3))) =
   filter (\<lambda>r. batch_id r \<noteq> ''17a'' \<or> sent r) (scheduled_messages store3)"
proof -
  have a: "map row_id (scheduled_messages store3) = [1, 2, 3]"
    "map batch_id (scheduled_messages store3) = [''17a'', ''17'', ''17a'']"
    "map sent (scheduled_messages store3) = [False, False, True]"
    by (simp_all add: store3_def initial_def)
  have b: "map row_id (scheduled_messages (snd (delete_api_scheduled_batch ''17a'' store3))) = [2, 3]"
    by (simp add: store3_def initial_def delete_api_scheduled_batch_def)
  note T = delete_batch_exact[of "''17a''" store3]
  show ?thesis
    by (intro conjI a b T[THEN conjunct2, THEN conjunct2, THEN conjunct1])
qed

lemma put_stored:
  "stored_text lib newValue = Some newTime \<Longrightarrow>
   put_api_scheduled lib i newValue s = update_scheduled_time i newTime s"
  by (cases newValue) (simp_all add: stored_text_def put_api_scheduled_def)

lemma put_not_stored:
  "stored_text lib newValue = None \<Longrightarrow> snd (put_api_scheduled lib i newValue s) = s"
  by (cases newValue) (simp_all add: stored_text_def put_api_scheduled_def)

lemma update_rows:
  "scheduled_messages (snd (update_scheduled_time i newTime s)) =
     map (\<lambda>r. if row_id r = i \<and> \<not> sent r then r\<lparr>scheduled_time := newTime\<rparr> else r)
       (scheduled_messages s)"
  by (simp add: update_scheduled_time_def Let_def)

lemma update_member:
  assumes "r \<in> set (scheduled_messages s)" "row_id r = i" "\<not> sent r"
  shows "r\<lparr>scheduled_time := newTime\<rparr> \<in> set (scheduled_messages (snd (update_scheduled_time i newTime s)))"
proof -
  have "(\<lambda>r. if row_id r = i \<and> \<not> sent r then r\<lparr>scheduled_time := newTime\<rparr> else r) r
        \<in> set (scheduled_messages (snd (update_scheduled_time i newTime s)))"
    unfolding update_rows set_map using assms(1) by (rule imageI)
  then show ?thesis using assms(2,3) by simp
qed

lemma update_pending_time:
  assumes "q \<in> set (scheduled_messages (snd (update_scheduled_time i newTime s)))" "row_id q = i" "\<not> sent q"
  shows "scheduled_time q = newTime"
proof -
  from assms(1) obtain r where r: "r \<in> set (scheduled_messages s)"
    and q: "q = (if row_id r = i \<and> \<not> sent r then r\<lparr>scheduled_time := newTime\<rparr> else r)"
    unfolding update_rows set_map by blast
  show ?thesis
  proof (cases "row_id r = i \<and> \<not> sent r")
    case True then show ?thesis using q by simp
  next
    case False
    then have "q = r" unfolding q by (rule if_not_P)
    then show ?thesis using False assms(2,3) by simp
  qed
qed

text \<open>
  C9. For a new time that is stored (a text, or a number as its text): rescheduling an id
  that no unsent row has (the row is sent, or there is none) answers 404 and returns the
  state it was given. Rescheduling the id of an unsent row answers success; the row with
  the new time is in the next listing of pending rows, every pending row of that id has the
  new time, and all other rows are as before.
\<close>

theorem reschedule_result:
  assumes "stored_text lib newValue = Some newTime"
  shows
  "((\<forall>r\<in>set (scheduled_messages s). row_id r = i \<longrightarrow> sent r) \<longrightarrow>
      put_api_scheduled lib i newValue s = (Status404 ''Message not found'', s)) \<and>
   (r \<in> set (scheduled_messages s) \<and> row_id r = i \<and> \<not> sent r \<longrightarrow>
      fst (put_api_scheduled lib i newValue s) = Success \<and>
      r\<lparr>scheduled_time := newTime\<rparr> \<in>
        set (get_api_scheduled (snd (put_api_scheduled lib i newValue s))) \<and>
      (\<forall>q\<in>set (get_api_scheduled (snd (put_api_scheduled lib i newValue s))).
          row_id q = i \<longrightarrow> scheduled_time q = newTime) \<and>
      filter (\<lambda>q. row_id q \<noteq> i \<or> sent q)
        (scheduled_messages (snd (put_api_scheduled lib i newValue s))) =
      filter (\<lambda>q. row_id q \<noteq> i \<or> sent q) (scheduled_messages s))"
  unfolding put_stored[OF assms]
proof (intro conjI impI)
  assume a: "\<forall>r\<in>set (scheduled_messages s). row_id r = i \<longrightarrow> sent r"
  then have n: "\<forall>r\<in>set (scheduled_messages s). \<not> (row_id r = i \<and> \<not> sent r)"
    by blast
  show "update_scheduled_time i newTime s = (Status404 ''Message not found'', s)"
    unfolding update_scheduled_time_def Let_def
    by (simp add: map_if_none[OF n] filter_none[OF n])
next
  assume p: "r \<in> set (scheduled_messages s) \<and> row_id r = i \<and> \<not> sent r"
  let ?s' = "snd (update_scheduled_time i newTime s)"
  have ne: "filter (\<lambda>r. row_id r = i \<and> \<not> sent r) (scheduled_messages s) \<noteq> []"
    using p by (auto simp: filter_empty_conv)
  show "fst (update_scheduled_time i newTime s) = Success"
    using ne by (simp add: update_scheduled_time_def Let_def)
  have "r\<lparr>scheduled_time := newTime\<rparr> \<in> set (scheduled_messages ?s')"
    using p by (simp add: update_member)
  then show "r\<lparr>scheduled_time := newTime\<rparr> \<in> set (get_api_scheduled ?s')"
    using p by (simp add: get_api_scheduled_def set_select_pending)
  show "\<forall>q\<in>set (get_api_scheduled ?s'). row_id q = i \<longrightarrow> scheduled_time q = newTime"
    using update_pending_time[of _ i newTime s]
    by (simp add: get_api_scheduled_def set_select_pending)
  show "filter (\<lambda>q. row_id q \<noteq> i \<or> sent q) (scheduled_messages ?s') =
        filter (\<lambda>q. row_id q \<noteq> i \<or> sent q) (scheduled_messages s)"
    unfolding update_rows by (rule filter_map_if_other) auto
qed

text \<open>
  Row 3 is sent and no row has id 8: both answer 404 and change nothing. Row 1 is pending
  and moves from second 9 to second 7, ahead of row 2 in the listing.
\<close>

theorem reschedule_result_witness:
  "stored_text example_library (Text ''1970-01-01T00:00:07.000Z'') =
     Some ''1970-01-01T00:00:07.000Z'' \<and>
   put_api_scheduled example_library 3 (Text ''1970-01-01T00:00:07.000Z'') store3 =
     (Status404 ''Message not found'', store3) \<and>
   put_api_scheduled example_library 8 (Text ''1970-01-01T00:00:07.000Z'') store3 =
     (Status404 ''Message not found'', store3) \<and>
   pending1 \<in> set (scheduled_messages store3) \<and> row_id pending1 = 1 \<and> \<not> sent pending1 \<and>
   fst (put_api_scheduled example_library 1 (Text ''1970-01-01T00:00:07.000Z'') store3) = Success \<and>
   pending1\<lparr>scheduled_time := ''1970-01-01T00:00:07.000Z''\<rparr> \<in>
     set (get_api_scheduled
       (snd (put_api_scheduled example_library 1 (Text ''1970-01-01T00:00:07.000Z'') store3))) \<and>
   map (\<lambda>r. (row_id r, scheduled_time r))
     (get_api_scheduled
       (snd (put_api_scheduled example_library 1 (Text ''1970-01-01T00:00:07.000Z'') store3))) =
     [(1, ''1970-01-01T00:00:07.000Z''), (2, ''1970-01-01T00:00:09.000Z'')]"
proof -
  have t: "stored_text example_library (Text ''1970-01-01T00:00:07.000Z'') =
     Some ''1970-01-01T00:00:07.000Z''"
    by (simp add: stored_text_def)
  have s3: "\<forall>r\<in>set (scheduled_messages store3). row_id r = 3 \<longrightarrow> sent r"
    by (simp add: store3_def initial_def)
  have s8: "\<forall>r\<in>set (scheduled_messages store3). row_id r = 8 \<longrightarrow> sent r"
    by (simp add: store3_def initial_def)
  have p: "pending1 \<in> set (scheduled_messages store3) \<and> row_id pending1 = 1 \<and> \<not> sent pending1"
    by (simp add: store3_def initial_def pending1_def)
  have l: "map (\<lambda>r. (row_id r, scheduled_time r))
      (get_api_scheduled
        (snd (put_api_scheduled example_library 1 (Text ''1970-01-01T00:00:07.000Z'') store3))) =
      [(1, ''1970-01-01T00:00:07.000Z''), (2, ''1970-01-01T00:00:09.000Z'')]"
    by (simp add: get_api_scheduled_def select_pending_def put_api_scheduled_def
        update_scheduled_time_def store3_def initial_def Let_def)
  note A = reschedule_result[OF t, of store3 3 pending1, THEN conjunct1, THEN mp, OF s3]
  note B = reschedule_result[OF t, of store3 8 pending1, THEN conjunct1, THEN mp, OF s8]
  note C = reschedule_result[OF t, of store3 1 pending1, THEN conjunct2, THEN mp, OF p]
  show ?thesis
    using p by (intro conjI t A B C[THEN conjunct1] C[THEN conjunct2, THEN conjunct1] l) simp_all
qed

section \<open>The dispatcher loop\<close>

lemma mark_all_row_id [simp]: "row_id (mark_all D r) = row_id r"
  by (simp add: mark_all_def)

lemma mark_all_empty [simp]: "mark_all {} r = r"
  by (simp add: mark_all_def)

lemma mark_all_empty_fun [simp]: "map (mark_all {}) xs = xs"
  by (simp add: map_idI)

lemma mark_all_twice: "mark_all D (mark_all E r) = mark_all (E \<union> D) r"
  by (simp add: mark_all_def)

lemma dispatch_one_calls:
  "sendMessage_calls (dispatch_one tr m s) = sendMessage_calls s @ [call_of tr m]"
  by (cases "tr m") (simp_all add: dispatch_one_def call_of_def Let_def mark_sent_def)

lemma dispatch_one_rows:
  "scheduled_messages (dispatch_one tr m s) =
     map (mark_all (if tr m = Delivered then {row_id m} else {})) (scheduled_messages s)"
  by (cases "tr m") (simp_all add: dispatch_one_def Let_def mark_sent_def mark_all_def)

lemma dispatch_one_other:
  "sqlite_sequence (dispatch_one tr m s) = sqlite_sequence s"
  "isReady (dispatch_one tr m s) = isReady s"
  by (cases "tr m"; simp add: dispatch_one_def Let_def mark_sent_def)+

lemma send_loop_calls:
  "sendMessage_calls (send_loop tr q s) = sendMessage_calls s @ map (call_of tr) q"
  by (induction q arbitrary: s) (simp_all add: dispatch_one_calls)

lemma send_loop_other:
  "sqlite_sequence (send_loop tr q s) = sqlite_sequence s"
  "isReady (send_loop tr q s) = isReady s"
  by (induction q arbitrary: s; simp add: dispatch_one_other)+

lemma delivered_ids_Cons:
  "delivered_ids tr (m # q) = (if tr m = Delivered then {row_id m} else {}) \<union> delivered_ids tr q"
  by (auto simp: delivered_ids_def)

lemma send_loop_rows:
  "scheduled_messages (send_loop tr q s) = map (mark_all (delivered_ids tr q)) (scheduled_messages s)"
proof (induction q arbitrary: s)
  case Nil
  show ?case by (simp add: delivered_ids_def map_idI)
next
  case (Cons m q)
  show ?case
    by (simp only: send_loop.simps Cons.IH dispatch_one_rows map_map o_def mark_all_twice
        delivered_ids_Cons)
qed

lemma clock_second_mono: "a \<le> b \<Longrightarrow> clock_second a \<le> clock_second b"
  by (simp add: clock_second_def zdiv_mono1)

lemma is_due_later: "is_due lib now r \<Longrightarrow> now \<le> later \<Longrightarrow> is_due lib later r"
  using clock_second_mono[of now later]
  by (auto simp: is_due_def split: option.splits)

lemma select_due_set:
  "set (select_due lib now s) =
     {r \<in> set (scheduled_messages s). \<not> sent r \<and> is_due lib now r}"
  by (auto simp: select_due_def)

lemma distinct_ids_unique:
  "distinct (map row_id xs) \<Longrightarrow> a \<in> set xs \<Longrightarrow> b \<in> set xs \<Longrightarrow> row_id a = row_id b \<Longrightarrow> a = b"
  by (meson distinct_map inj_onD)

lemma cron_tick_rows:
  "isReady s \<Longrightarrow> scheduled_messages (cron_tick lib tr now s) =
     map (mark_all (delivered_ids tr (select_due lib now s))) (scheduled_messages s)"
  by (simp add: cron_tick_def send_loop_rows)

lemma cron_tick_calls:
  "isReady s \<Longrightarrow> sendMessage_calls (cron_tick lib tr now s) =
     sendMessage_calls s @ map (call_of tr) (select_due lib now s)"
  by (simp add: cron_tick_def send_loop_calls)

lemma entry_call_of [simp]: "entry (call_of tr m) = m"
  by (simp add: call_of_def)

lemma tick_leaves_failed:
  assumes rdy: "isReady s" and d: "distinct (map row_id (scheduled_messages s))"
    and m: "m \<in> set (select_due lib now s)" and f: "tr m \<noteq> Delivered"
  shows "m \<in> set (scheduled_messages (cron_tick lib tr now s))"
proof -
  have min: "m \<in> set (scheduled_messages s)" using m by (simp add: select_due_set)
  have "row_id m \<notin> delivered_ids tr (select_due lib now s)"
  proof
    assume "row_id m \<in> delivered_ids tr (select_due lib now s)"
    then obtain m' where m': "m' \<in> set (select_due lib now s)" "tr m' = Delivered" "row_id m' = row_id m"
      by (auto simp: delivered_ids_def)
    then have "m' \<in> set (scheduled_messages s)" by (simp add: select_due_set)
    then have "m' = m" using distinct_ids_unique[OF d _ min] m'(3) by blast
    then show False using m'(2) f by simp
  qed
  then have "mark_all (delivered_ids tr (select_due lib now s)) m = m"
    by (simp add: mark_all_def)
  then have "m \<in> mark_all (delivered_ids tr (select_due lib now s)) ` set (scheduled_messages s)"
    using min by (metis imageI)
  then show ?thesis by (simp add: cron_tick_rows[OF rdy])
qed

lemma tick_marks_delivered:
  assumes rdy: "isReady s" and m: "m \<in> set (select_due lib now s)" and f: "tr m = Delivered"
  shows "m\<lparr>sent := True\<rparr> \<in> set (scheduled_messages (cron_tick lib tr now s))"
    and "\<forall>r\<in>set (scheduled_messages (cron_tick lib tr now s)). row_id r = row_id m \<longrightarrow> sent r"
proof -
  have min: "m \<in> set (scheduled_messages s)" using m by (simp add: select_due_set)
  have din: "row_id m \<in> delivered_ids tr (select_due lib now s)"
    using m f by (auto simp: delivered_ids_def)
  then have "mark_all (delivered_ids tr (select_due lib now s)) m = m\<lparr>sent := True\<rparr>"
    by (simp add: mark_all_def)
  then have "m\<lparr>sent := True\<rparr> \<in> mark_all (delivered_ids tr (select_due lib now s)) ` set (scheduled_messages s)"
    using min by (metis imageI)
  then show "m\<lparr>sent := True\<rparr> \<in> set (scheduled_messages (cron_tick lib tr now s))"
    by (simp add: cron_tick_rows[OF rdy])
  show "\<forall>r\<in>set (scheduled_messages (cron_tick lib tr now s)). row_id r = row_id m \<longrightarrow> sent r"
  proof (intro ballI impI)
    fix r assume r: "r \<in> set (scheduled_messages (cron_tick lib tr now s))" "row_id r = row_id m"
    then obtain r0 where r0: "r = mark_all (delivered_ids tr (select_due lib now s)) r0"
      by (auto simp: cron_tick_rows[OF rdy])
    then have "row_id r0 = row_id m" using r(2) by simp
    then have "row_id r0 \<in> delivered_ids tr (select_due lib now s)" using din by simp
    then show "sent r" unfolding r0 by (simp add: mark_all_def)
  qed
qed

text \<open>
  C8. In a tick with the client ready and row ids distinct, \<^verbatim>\<open>sendMessage\<close> is called for
  every due row, in the order of the due list, whatever the earlier calls did. A due row
  whose send (or whose update) failed is still in the table, unchanged and unsent, and is
  due at every later time; a due row whose send and update succeeded is in the table with
  \<^verbatim>\<open>sent = 1\<close>, and no row of its id is unsent.
\<close>

theorem tick_failure_isolation:
  assumes "isReady s" and "distinct (map row_id (scheduled_messages s))"
  shows "map entry (sendMessage_calls (cron_tick lib tr now s)) =
           map entry (sendMessage_calls s) @ select_due lib now s \<and>
         (\<forall>m\<in>set (select_due lib now s).
            (tr m \<noteq> Delivered \<longrightarrow>
               m \<in> set (scheduled_messages (cron_tick lib tr now s)) \<and>
               (\<forall>later. now \<le> later \<longrightarrow> m \<in> set (select_due lib later (cron_tick lib tr now s)))) \<and>
            (tr m = Delivered \<longrightarrow>
               m\<lparr>sent := True\<rparr> \<in> set (scheduled_messages (cron_tick lib tr now s)) \<and>
               (\<forall>r\<in>set (scheduled_messages (cron_tick lib tr now s)). row_id r = row_id m \<longrightarrow> sent r)))"
proof (intro conjI ballI impI allI)
  show "map entry (sendMessage_calls (cron_tick lib tr now s)) =
          map entry (sendMessage_calls s) @ select_due lib now s"
    by (simp add: cron_tick_calls[OF assms(1)] o_def)
next
  fix m assume m: "m \<in> set (select_due lib now s)" and f: "tr m \<noteq> Delivered"
  show k: "m \<in> set (scheduled_messages (cron_tick lib tr now s))"
    using assms m f by (rule tick_leaves_failed)
  fix later assume "now \<le> later"
  then show "m \<in> set (select_due lib later (cron_tick lib tr now s))"
    using m k is_due_later[of lib now m later] by (simp add: select_due_set)
next
  fix m assume m: "m \<in> set (select_due lib now s)" and f: "tr m = Delivered"
  show "m\<lparr>sent := True\<rparr> \<in> set (scheduled_messages (cron_tick lib tr now s))"
    using assms(1) m f by (rule tick_marks_delivered(1))
  fix r assume "r \<in> set (scheduled_messages (cron_tick lib tr now s))" "row_id r = row_id m"
  then show "sent r" using tick_marks_delivered(2)[where tr = tr, OF assms(1) m f] by blast
qed

text \<open>
  Three due rows, the send of the second is rejected: all three are attempted, the first
  and the third are marked sent, the second is due again.
\<close>

theorem tick_failure_isolation_witness:
  "isReady three_due \<and> distinct (map row_id (scheduled_messages three_due)) \<and>
   select_due example_library 5000 three_due = [entry_at 1 1000 False, entry_at 2 2000 False, entry_at 3 3000 False] \<and>
   second_fails (entry_at 2 2000 False) = Send_rejected \<and>
   map entry (sendMessage_calls (cron_tick example_library second_fails 5000 three_due)) =
     [entry_at 1 1000 False, entry_at 2 2000 False, entry_at 3 3000 False] \<and>
   entry_at 2 2000 False \<in> set (select_due example_library 5000 (cron_tick example_library second_fails 5000 three_due)) \<and>
   entry_at 1 1000 True \<in> set (scheduled_messages (cron_tick example_library second_fails 5000 three_due)) \<and>
   entry_at 3 3000 True \<in> set (scheduled_messages (cron_tick example_library second_fails 5000 three_due))"
proof -
  have h1: "isReady three_due" by (simp add: three_due_def)
  have h2: "distinct (map row_id (scheduled_messages three_due))"
    by (simp add: three_due_def entry_at_def)
  have due: "select_due example_library 5000 three_due =
      [entry_at 1 1000 False, entry_at 2 2000 False, entry_at 3 3000 False]"
    by (simp add: select_due_def three_due_def entry_at_def is_due_def clock_second_def
        example_library_def example_instants_def example_readings_def)
  have o: "second_fails (entry_at 2 2000 False) = Send_rejected"
    "second_fails (entry_at 1 1000 False) = Delivered"
    "second_fails (entry_at 3 3000 False) = Delivered"
    by (simp_all add: second_fails_def entry_at_def)
  have t: "entry_at 1 1000 False\<lparr>sent := True\<rparr> = entry_at 1 1000 True"
    "entry_at 3 3000 False\<lparr>sent := True\<rparr> = entry_at 3 3000 True"
    by (simp_all add: entry_at_def)
  have c: "sendMessage_calls three_due = []" by (simp add: three_due_def)
  note T = tick_failure_isolation[OF h1 h2, of example_library second_fails 5000, unfolded due]
  show ?thesis
    using T h1 h2 o t c by (simp add: due)
qed

section \<open>The insert loop of the batch scheduler\<close>

lemma writes_done_le: "writes_done run_ok index n \<le> n"
  by (induction n arbitrary: index) auto

lemma writes_done_all:
  "(\<forall>j<n. run_ok (index + j)) \<Longrightarrow> writes_done run_ok index n = n"
proof (induction n arbitrary: index)
  case 0 show ?case by simp
next
  case (Suc n)
  have "run_ok index" using Suc.prems by (metis add.right_neutral zero_less_Suc)
  moreover have "\<forall>j<n. run_ok (index + 1 + j)"
    using Suc.prems by (metis Suc_less_eq add_Suc_right add_Suc_shift plus_1_eq_Suc add.commute)
  ultimately show ?case using Suc.IH[of "index + 1"] by simp
qed

lemma writes_done_first_failure:
  "k < n \<Longrightarrow> \<not> run_ok (index + k) \<Longrightarrow> (\<forall>j<k. run_ok (index + j)) \<Longrightarrow>
   writes_done run_ok index n = k"
proof (induction n arbitrary: index k)
  case 0 then show ?case by simp
next
  case (Suc n)
  show ?case
  proof (cases k)
    case 0 then show ?thesis using Suc.prems by simp
  next
    case (Suc k')
    have a: "run_ok index" using Suc.prems(3) Suc by (metis add.right_neutral zero_less_Suc)
    have b: "\<not> run_ok (index + 1 + k')" using Suc.prems(2) Suc by simp
    have c: "\<forall>j<k'. run_ok (index + 1 + j)"
    proof (intro allI impI)
      fix j assume "j < k'"
      then have "Suc j < k" using Suc by simp
      then have "run_ok (index + Suc j)" using Suc.prems(3) by blast
      then show "run_ok (index + 1 + j)" by simp
    qed
    have "k' < n" using Suc.prems(1) Suc by simp
    then have "writes_done run_ok (index + 1) n = k'" using Suc.IH[OF _ b c] by simp
    then show ?thesis using a Suc by simp
  qed
qed

lemma length_batch_rows [simp]:
  "length (batch_rows lib rnd phone d b now msgs index cum n) = length msgs"
  by (induction msgs arbitrary: index cum n) auto

lemma forEach_insert_eq:
  "forEach_insert lib run_ok rnd phone d b now msgs index cum ids s =
     (let k = writes_done run_ok index (length msgs);
          new = take k (batch_rows lib rnd phone d b now msgs index cum (sqlite_sequence s))
      in (if k = length msgs then Inr (ids @ map row_id new) else Inl ''SqliteError'',
          s\<lparr>scheduled_messages := scheduled_messages s @ new,
            sqlite_sequence := sqlite_sequence s + k\<rparr>))"
proof (induction msgs arbitrary: index cum ids s)
  case Nil
  show ?case by simp
next
  case (Cons msg rest)
  show ?case
  proof (cases "run_ok index")
    case False
    then show ?thesis by simp
  next
    case True
    show ?thesis
      using True
      by (simp add: insert_row_def Let_def Cons.IH)
  qed
qed

lemma message_batch_rows [simp]:
  "map message (batch_rows lib rnd phone d b now msgs index cum n) = msgs"
  by (induction msgs arbitrary: index cum n) auto

lemma row_id_batch_rows:
  "map row_id (batch_rows lib rnd phone d b now msgs index cum n) = [n + 1 ..< n + 1 + length msgs]"
proof (induction msgs arbitrary: index cum n)
  case Nil show ?case by simp
next
  case (Cons m ms)
  have "[n + 1 ..< n + 1 + length (m # ms)] = (n + 1) # [n + 1 + 1 ..< n + 1 + 1 + length ms]"
    by (subst upt_conv_Cons) auto
  then show ?case by (simp add: Cons.IH)
qed

lemma length_batch_instants [simp]:
  "length (batch_instants rnd d msgs index cum) = length msgs"
  by (induction msgs arbitrary: index cum) auto

lemma scheduled_time_batch_rows:
  "map scheduled_time (batch_rows lib rnd phone d b now msgs index cum n) =
   map (toISOString lib) (batch_instants rnd d msgs index cum)"
  by (induction msgs arbitrary: index cum n) auto

lemma batch_instants_first:
  "msgs \<noteq> [] \<Longrightarrow> batch_instants rnd d msgs index cum ! 0 = d + cum"
  by (cases msgs) auto

lemma batch_instants_step:
  "j + 1 < length msgs \<Longrightarrow>
   batch_instants rnd d msgs index cum ! (j + 1) =
   batch_instants rnd d msgs index cum ! j +
   calculateTypingDelay (rnd (2 * (index + j))) (rnd (2 * (index + j) + 1)) (length (msgs ! j))"
proof (induction msgs arbitrary: index cum j)
  case Nil then show ?case by simp
next
  case (Cons m ms)
  then have ne: "ms \<noteq> []" by auto
  show ?case
  proof (cases j)
    case 0
    then show ?thesis using ne by (simp add: batch_instants_first)
  next
    case (Suc j')
    then have "j' + 1 < length ms" using Cons.prems by simp
    from Cons.IH[OF this, of "index + 1"] show ?thesis using Suc by simp
  qed
qed

lemma batch_rows_attrs:
  "r \<in> set (batch_rows lib rnd phone d b now msgs index cum n) \<Longrightarrow>
   phone_number r = phone \<and> batch_id r = b \<and> \<not> sent r \<and> created_at r = now"
  by (induction msgs arbitrary: index cum n) auto

lemma post_api_schedule_valid:
  assumes "phoneNumber req = Some phone" "messages req = Some msgs"
    "scheduledTime req = Some targetTime" "phone \<noteq> []" "msgs \<noteq> []" "now < targetTime"
  shows "post_api_schedule lib run_ok rnd now b req s =
     (case forEach_insert lib run_ok rnd phone targetTime b now msgs 0 0 [] s of
        (Inl err, s') \<Rightarrow> (Status500 err, s')
      | (Inr insertedIds, s') \<Rightarrow> (Scheduled (length msgs) insertedIds, broadcast_scheduled s'))"
  using assms by (simp add: post_api_schedule_def)

lemma post_api_schedule_ok:
  assumes "phoneNumber req = Some phone" "messages req = Some msgs"
    "scheduledTime req = Some targetTime" "phone \<noteq> []" "msgs \<noteq> []" "now < targetTime"
    "\<forall>j<length msgs. run_ok j"
  shows "fst (post_api_schedule lib run_ok rnd now b req s) =
           Scheduled (length msgs) (map row_id (batch_rows lib rnd phone targetTime b now msgs 0 0 (sqlite_sequence s)))"
    and "scheduled_messages (snd (post_api_schedule lib run_ok rnd now b req s)) =
           scheduled_messages s @ batch_rows lib rnd phone targetTime b now msgs 0 0 (sqlite_sequence s)"
    and "sqlite_sequence (snd (post_api_schedule lib run_ok rnd now b req s)) = sqlite_sequence s + length msgs"
proof -
  have k: "writes_done run_ok 0 (length msgs) = length msgs"
    using assms(7) by (simp add: writes_done_all)
  show "fst (post_api_schedule lib run_ok rnd now b req s) =
           Scheduled (length msgs) (map row_id (batch_rows lib rnd phone targetTime b now msgs 0 0 (sqlite_sequence s)))"
    by (simp add: post_api_schedule_valid[OF assms(1-6)] forEach_insert_eq k Let_def)
  show "scheduled_messages (snd (post_api_schedule lib run_ok rnd now b req s)) =
           scheduled_messages s @ batch_rows lib rnd phone targetTime b now msgs 0 0 (sqlite_sequence s)"
    by (simp add: post_api_schedule_valid[OF assms(1-6)] forEach_insert_eq k Let_def)
  show "sqlite_sequence (snd (post_api_schedule lib run_ok rnd now b req s)) = sqlite_sequence s + length msgs"
    by (simp add: post_api_schedule_valid[OF assms(1-6)] forEach_insert_eq k Let_def)
qed

lemma post_api_schedule_failed:
  assumes "phoneNumber req = Some phone" "messages req = Some msgs"
    "scheduledTime req = Some targetTime" "phone \<noteq> []" "msgs \<noteq> []" "now < targetTime"
    "k < length msgs" "\<not> run_ok k" "\<forall>j<k. run_ok j"
  shows "post_api_schedule lib run_ok rnd now b req s =
     (Status500 ''SqliteError'',
      s\<lparr>scheduled_messages := scheduled_messages s @
           take k (batch_rows lib rnd phone targetTime b now msgs 0 0 (sqlite_sequence s)),
        sqlite_sequence := sqlite_sequence s + k\<rparr>)"
proof -
  have k: "writes_done run_ok 0 (length msgs) = k"
    using assms(7-9) by (simp add: writes_done_first_failure)
  show ?thesis
    using assms(7) by (simp add: post_api_schedule_valid[OF assms(1-6)] forEach_insert_eq k Let_def)
qed

text \<open>
  C3. For a valid request whose writes all succeed, the answer lists the ids of the new
  rows, the rows that were there are untouched, the new rows carry the messages in order,
  the first new row holds the \<^verbatim>\<open>toISOString\<close> text of the target time exactly, and the
  \<^verbatim>\<open>scheduled_time\<close> texts of the new rows are the \<^verbatim>\<open>toISOString\<close> texts of instants of
  which the first is the target time and each next one is the one before plus the typing
  delay of the length of the message before.
\<close>

theorem schedule_times:
  assumes "phoneNumber req = Some phone" and "messages req = Some msgs"
    and "scheduledTime req = Some targetTime"
    and "phone \<noteq> []" and "msgs \<noteq> []" and "now < targetTime"
    and "\<forall>j<length msgs. run_ok j"
  shows "fst (post_api_schedule lib run_ok rnd now b req s) =
           Scheduled (length msgs)
             (map row_id (new_rows s (snd (post_api_schedule lib run_ok rnd now b req s)))) \<and>
         take (length (scheduled_messages s))
           (scheduled_messages (snd (post_api_schedule lib run_ok rnd now b req s))) =
           scheduled_messages s \<and>
         map message (new_rows s (snd (post_api_schedule lib run_ok rnd now b req s))) = msgs \<and>
         scheduled_time (new_rows s (snd (post_api_schedule lib run_ok rnd now b req s)) ! 0) =
           toISOString lib targetTime \<and>
         (\<exists>scheduledAt.
            length scheduledAt = length msgs \<and>
            map scheduled_time (new_rows s (snd (post_api_schedule lib run_ok rnd now b req s))) =
              map (toISOString lib) scheduledAt \<and>
            scheduledAt ! 0 = targetTime \<and>
            (\<forall>i. i + 1 < length msgs \<longrightarrow>
               scheduledAt ! (i + 1) =
               scheduledAt ! i +
               calculateTypingDelay (rnd (2 * i)) (rnd (2 * i + 1)) (length (msgs ! i))))"
proof -
  let ?B = "batch_rows lib rnd phone targetTime b now msgs 0 0 (sqlite_sequence s)"
  let ?T = "batch_instants rnd targetTime msgs 0 0"
  have n: "new_rows s (snd (post_api_schedule lib run_ok rnd now b req s)) = ?B"
    by (simp add: new_rows_def post_api_schedule_ok(2)[OF assms])
  have t: "length ?T = length msgs \<and> map scheduled_time ?B = map (toISOString lib) ?T \<and>
      ?T ! 0 = targetTime \<and>
      (\<forall>i. i + 1 < length msgs \<longrightarrow>
         ?T ! (i + 1) =
         ?T ! i + calculateTypingDelay (rnd (2 * i)) (rnd (2 * i + 1)) (length (msgs ! i)))"
    using batch_instants_first[OF assms(5), of rnd targetTime 0 0]
      batch_instants_step[of _ msgs rnd targetTime 0 0]
    by (simp add: scheduled_time_batch_rows)
  have e: "\<exists>scheduledAt. length scheduledAt = length msgs \<and>
      map scheduled_time ?B = map (toISOString lib) scheduledAt \<and>
      scheduledAt ! 0 = targetTime \<and>
      (\<forall>i. i + 1 < length msgs \<longrightarrow>
         scheduledAt ! (i + 1) =
         scheduledAt ! i +
         calculateTypingDelay (rnd (2 * i)) (rnd (2 * i + 1)) (length (msgs ! i)))"
    using t by (rule exI[of _ ?T])
  have f: "scheduled_time (?B ! 0) = toISOString lib targetTime"
    using assms(5) by (cases msgs) simp_all
  show ?thesis
    unfolding n using e f by (simp add: post_api_schedule_ok[OF assms])
qed

text \<open>
  The three messages of the README, with every draw 0.5 (a flat typing speed of 3 characters
  a second and 2000 ms of thinking): delays 3000 and 6000.
\<close>

theorem schedule_times_witness:
  "phoneNumber hangout = Some ''5511999990000@c.us'' \<and>
   messages hangout = Some [''Hey'', ''How are you?'', ''Want to hang out?''] \<and>
   scheduledTime hangout = Some 50400000 \<and>
   fst (post_api_schedule example_library always half 1000 ''b1'' hangout initial) =
     Scheduled 3 [1, 2, 3] \<and>
   map scheduled_time
     (new_rows initial (snd (post_api_schedule example_library always half 1000 ''b1'' hangout initial)))
     = [''1970-01-01T14:00:00.000Z'', ''1970-01-01T14:00:03.000Z'', ''1970-01-01T14:00:09.000Z''] \<and>
   map (toISOString example_library) [50400000, 50400000 + 3000, 50400000 + 3000 + 6000] =
     [''1970-01-01T14:00:00.000Z'', ''1970-01-01T14:00:03.000Z'', ''1970-01-01T14:00:09.000Z''] \<and>
   calculateTypingDelay (half 0) (half 1) (length ''Hey'') = 3000 \<and>
   calculateTypingDelay (half 2) (half 3) (length ''How are you?'') = 6000"
proof -
  have h: "phoneNumber hangout = Some ''5511999990000@c.us''"
    "messages hangout = Some [''Hey'', ''How are you?'', ''Want to hang out?'']"
    "scheduledTime hangout = Some 50400000"
    by (simp_all add: hangout_def)
  have v: "''5511999990000@c.us'' \<noteq> []" "[''Hey'', ''How are you?'', ''Want to hang out?''] \<noteq> []"
    "(1000::int) < 50400000"
    "\<forall>j<length [''Hey'', ''How are you?'', ''Want to hang out?'']. always j"
    by (simp_all add: always_def)
  have d: "calculateTypingDelay (half 0) (half 1) (length ''Hey'') = 3000"
    "calculateTypingDelay (half 2) (half 3) (length ''How are you?'') = 6000"
    by (simp_all add: calculateTypingDelay_def half_def)
  have e: "map scheduled_time
     (new_rows initial (snd (post_api_schedule example_library always half 1000 ''b1'' hangout initial)))
     = [''1970-01-01T14:00:00.000Z'', ''1970-01-01T14:00:03.000Z'', ''1970-01-01T14:00:09.000Z'']"
    by (simp add: new_rows_def post_api_schedule_def hangout_def initial_def always_def half_def
        insert_row_def calculateTypingDelay_def Let_def example_library_def example_instants_def)
  have t: "map (toISOString example_library) [50400000, 50400000 + 3000, 50400000 + 3000 + 6000] =
     [''1970-01-01T14:00:00.000Z'', ''1970-01-01T14:00:03.000Z'', ''1970-01-01T14:00:09.000Z'']"
    by (simp add: example_library_def example_instants_def)
  have i: "map row_id
     (new_rows initial (snd (post_api_schedule example_library always half 1000 ''b1'' hangout initial)))
     = [1, 2, 3]"
    by (simp add: new_rows_def post_api_schedule_def hangout_def initial_def always_def half_def
        insert_row_def Let_def)
  note T = schedule_times[OF h v, of example_library half "''b1''" initial]
  have a: "fst (post_api_schedule example_library always half 1000 ''b1'' hangout initial) =
     Scheduled 3 [1, 2, 3]"
    using T[THEN conjunct1] by (simp add: i)
  show ?thesis
    by (intro conjI h a e t d)
qed

text \<open>
  C2 fails as stated. The second \<^verbatim>\<open>stmt.run\<close> of a batch of three throws: the caller gets
  the error (500), and the first row of the batch is still in the table and in the listing
  of pending rows.
\<close>

theorem schedule_partial_batch_counterexample:
  "first_only 1 = False \<and>
   fst (post_api_schedule example_library first_only half 1000 ''b1'' hangout initial) = Status500 ''SqliteError'' \<and>
   map message (filter (\<lambda>r. batch_id r = ''b1'')
     (get_api_scheduled (snd (post_api_schedule example_library first_only half 1000 ''b1'' hangout initial)))) =
     [''Hey'']"
  by (simp add: post_api_schedule_def hangout_def initial_def first_only_def half_def
      insert_row_def get_api_scheduled_def select_pending_def Let_def
      example_library_def example_instants_def)

text \<open>
  C2, amended. The rows are written one by one, with no transaction. When the write of row
  \<open>k\<close> is the first to fail, the caller gets the error (500), nothing is broadcast, and the
  table is what the run without failures would have made of it, cut after the first \<open>k\<close>
  rows of the batch: these \<open>k\<close> rows stay, no later row is written.
\<close>

theorem schedule_partial_write:
  assumes "phoneNumber req = Some phone" and "messages req = Some msgs"
    and "scheduledTime req = Some targetTime"
    and "phone \<noteq> []" and "msgs \<noteq> []" and "now < targetTime"
    and "k < length msgs" and "\<not> run_ok k" and "\<forall>j<k. run_ok j"
  shows "fst (post_api_schedule lib run_ok rnd now b req s) = Status500 ''SqliteError'' \<and>
         scheduled_messages (snd (post_api_schedule lib run_ok rnd now b req s)) =
           take (length (scheduled_messages s) + k)
             (scheduled_messages (snd (post_api_schedule lib always rnd now b req s))) \<and>
         length (scheduled_messages (snd (post_api_schedule lib run_ok rnd now b req s))) =
           length (scheduled_messages s) + k \<and>
         broadcasts (snd (post_api_schedule lib run_ok rnd now b req s)) = broadcasts s"
proof -
  have a: "\<forall>j<length msgs. always j" by (simp add: always_def)
  note ok = post_api_schedule_ok(2)[OF assms(1-6) a, of lib rnd b s]
  note bad = post_api_schedule_failed[OF assms, of lib rnd b s]
  show ?thesis
    using assms(7) by (simp add: ok bad)
qed

text \<open>
  The batch of three with the second write failing: one row stays.
\<close>

theorem schedule_partial_write_witness:
  "phoneNumber hangout = Some ''5511999990000@c.us'' \<and>
   messages hangout = Some [''Hey'', ''How are you?'', ''Want to hang out?''] \<and>
   scheduledTime hangout = Some 50400000 \<and> \<not> first_only 1 \<and> first_only 0 \<and>
   fst (post_api_schedule example_library first_only half 1000 ''b1'' hangout initial) = Status500 ''SqliteError'' \<and>
   length (scheduled_messages (snd (post_api_schedule example_library first_only half 1000 ''b1'' hangout initial))) = 1 \<and>
   scheduled_messages (snd (post_api_schedule example_library first_only half 1000 ''b1'' hangout initial)) =
     take 1 (scheduled_messages (snd (post_api_schedule example_library always half 1000 ''b1'' hangout initial)))"
proof -
  have h: "phoneNumber hangout = Some ''5511999990000@c.us''"
    "messages hangout = Some [''Hey'', ''How are you?'', ''Want to hang out?'']"
    "scheduledTime hangout = Some 50400000"
    by (simp_all add: hangout_def)
  have v: "''5511999990000@c.us'' \<noteq> []" "[''Hey'', ''How are you?'', ''Want to hang out?''] \<noteq> []"
    "(1000::int) < 50400000"
    by simp_all
  have k: "1 < length [''Hey'', ''How are you?'', ''Want to hang out?'']"
    "\<not> first_only 1" "\<forall>j<1. first_only j"
    by (simp_all add: first_only_def)
  have e: "scheduled_messages initial = []" by (simp add: initial_def)
  note T = schedule_partial_write[OF h v k, of example_library half "''b1''" initial]
  have T1: "fst (post_api_schedule example_library first_only half 1000 ''b1'' hangout initial) =
      Status500 ''SqliteError''"
    using T[THEN conjunct1] .
  have T3: "scheduled_messages (snd (post_api_schedule example_library first_only half 1000 ''b1'' hangout initial)) =
     take 1 (scheduled_messages (snd (post_api_schedule example_library always half 1000 ''b1'' hangout initial)))"
    using T[THEN conjunct2, THEN conjunct1] by (simp add: e)
  have T2: "length (scheduled_messages
      (snd (post_api_schedule example_library first_only half 1000 ''b1'' hangout initial))) = 1"
    using T[THEN conjunct2, THEN conjunct2, THEN conjunct1] by (simp add: e)
  show ?thesis
    by (intro conjI h k(2) T1 T2 T3) (simp add: first_only_def)
qed

section \<open>Validation of a schedule request\<close>

text \<open>
  Both routes answer 400, before any write, when the destination or the messages are
  missing or empty or the target time is not after \<open>now\<close>; the route of \<^verbatim>\<open>server.js\<close>
  also when no message is left after trimming and dropping the empty parts.
\<close>

lemma post_api_schedule_rejects:
  assumes "phoneNumber req \<in> {None, Some []} \<or> messages req \<in> {None, Some []} \<or>
           scheduledTime req = None \<or> (\<exists>t. scheduledTime req = Some t \<and> t \<le> now)"
  shows "rejected (post_api_schedule lib run_ok rnd now b req s) s"
  using assms
  by (auto simp: post_api_schedule_def rejected_def split: option.splits)

lemma post_api_schedule_text_rejects:
  assumes "message_t req = Some text"
    and "phoneNumber_t req \<in> {None, Some []} \<or>
         filter (\<lambda>m. m \<noteq> []) (map trim (split CHR ''/'' text)) = [] \<or>
         scheduledTime_t req = None \<or> (\<exists>t. scheduledTime_t req = Some t \<and> t \<le> now)"
  shows "rejected (post_api_schedule_text lib run_ok rnd now b req s) s"
  using assms
  by (auto simp: post_api_schedule_text_def rejected_def Let_def split: option.splits)

text \<open>
  C5 on a request whose only message is blank. Trimming and dropping empty parts leaves no
  message, so the claim asks for a validation error and no row. The handler that takes a
  list of messages checks only that the list is not empty: it answers success and stores
  the blank row. The handler of \<^verbatim>\<open>server.js\<close>, which takes one text, trims and filters:
  it rejects the same text with 400 and leaves the state unchanged.
\<close>

theorem blank_messages_are_scheduled:
  "filter (\<lambda>m. length m > 0) (map trim [''   '']) = [] \<and>
   fst (post_api_schedule example_library always half 1000 ''b1'' blank_request initial) = Scheduled 1 [1] \<and>
   map message (scheduled_messages (snd (post_api_schedule example_library always half 1000 ''b1'' blank_request initial)))
     = [''   ''] \<and>
   post_api_schedule_text example_library always half 1000 ''b1'' blank_text_request initial =
     (Status400 ''No valid messages found'', initial)"
  by (simp add: post_api_schedule_def post_api_schedule_text_def blank_request_def
      blank_text_request_def initial_def always_def insert_row_def trim_def is_space_def Let_def)

section \<open>Order of dispatch\<close>

text \<open>
  C1 at a reachable state. A message is scheduled for the instant 9000, then one for 5000;
  the client becomes ready and the tick runs at 10000 with both due. The tick's query has
  no \<^verbatim>\<open>ORDER BY\<close>, so the calls of \<^verbatim>\<open>sendMessage\<close> follow the row ids: the message
  scheduled for second 9 is sent before the one scheduled for second 5, and the sequence of
  calls is not sorted by \<^verbatim>\<open>scheduled_time\<close>.
\<close>

theorem dispatch_in_rowid_order:
  "map (\<lambda>c. (row_id (entry c), message (entry c), scheduled_time (entry c)))
     (sendMessage_calls (run example_library late_then_early initial)) =
     [(1, ''second'', ''1970-01-01T00:00:09.000Z''), (2, ''first'', ''1970-01-01T00:00:05.000Z'')] \<and>
   map (\<lambda>c. datetime example_library (scheduled_time (entry c)))
     (sendMessage_calls (run example_library late_then_early initial)) = [Some 9, Some 5] \<and>
   \<not> sorted (map (\<lambda>c. scheduled_time (entry c))
     (sendMessage_calls (run example_library late_then_early initial)))"
  by (simp add: late_then_early_def initial_def post_api_schedule_def one_message_def always_def
      insert_row_def cron_tick_def select_due_def is_due_def clock_second_def
      dispatch_one_def all_delivered_def mark_sent_def to_chatId_def Let_def
      example_library_def example_instants_def example_readings_def)

section \<open>Rescheduling without validation\<close>

lemma cron_tick_attempts_due:
  assumes "isReady s" and "m \<in> set (select_due lib now s)"
  shows "m \<in> entry ` set (sendMessage_calls (cron_tick lib tr now s))"
proof -
  have "call_of tr m \<in> set (sendMessage_calls (cron_tick lib tr now s))"
    using assms(2) by (simp add: cron_tick_calls[OF assms(1)])
  then have "entry (call_of tr m) \<in> entry ` set (sendMessage_calls (cron_tick lib tr now s))"
    by (rule imageI)
  then show ?thesis by simp
qed

lemma update_other_fields:
  "isReady (snd (update_scheduled_time i newTime s)) = isReady s"
  "sqlite_sequence (snd (update_scheduled_time i newTime s)) = sqlite_sequence s"
  "sendMessage_calls (snd (update_scheduled_time i newTime s)) = sendMessage_calls s"
  by (simp_all add: update_scheduled_time_def Let_def)

lemma put_other_fields:
  "isReady (snd (put_api_scheduled lib i newValue s)) = isReady s"
  "sqlite_sequence (snd (put_api_scheduled lib i newValue s)) = sqlite_sequence s"
  "sendMessage_calls (snd (put_api_scheduled lib i newValue s)) = sendMessage_calls s"
  by (cases newValue; simp add: put_api_scheduled_def update_other_fields)+

lemma put_refused:
  assumes "r \<in> set (scheduled_messages s)" and "row_id r = i" and "\<not> sent r"
    and "stored_text lib newValue = None"
  shows "\<exists>reason. put_api_scheduled lib i newValue s = (Status500 reason, s)"
proof -
  have ne: "filter (\<lambda>r. row_id r = i \<and> \<not> sent r) (scheduled_messages s) \<noteq> []"
    using assms(1-3) by (auto simp: filter_empty_conv)
  show ?thesis
    using assms(4) ne by (cases newValue) (simp_all add: stored_text_def put_api_scheduled_def)
qed

lemma put_accepts:
  assumes "r \<in> set (scheduled_messages s)" and "row_id r = i" and "\<not> sent r"
    and "stored_text lib newValue = Some newTime"
  shows "fst (put_api_scheduled lib i newValue s) = Success"
    and "r\<lparr>scheduled_time := newTime\<rparr> \<in>
           set (scheduled_messages (snd (put_api_scheduled lib i newValue s)))"
proof -
  have eq: "put_api_scheduled lib i newValue s = update_scheduled_time i newTime s"
    using assms(4) by (rule put_stored)
  have ne: "filter (\<lambda>r. row_id r = i \<and> \<not> sent r) (scheduled_messages s) \<noteq> []"
    using assms(1-3) by (auto simp: filter_empty_conv)
  show "fst (put_api_scheduled lib i newValue s) = Success"
    using ne by (simp add: eq update_scheduled_time_def Let_def)
  show "r\<lparr>scheduled_time := newTime\<rparr> \<in>
           set (scheduled_messages (snd (put_api_scheduled lib i newValue s)))"
    unfolding eq using assms(1-3) by (rule update_member)
qed

lemma put_due:
  assumes "r \<in> set (scheduled_messages s)" and "row_id r = i" and "\<not> sent r"
    and "stored_text lib newValue = Some newTime"
    and "datetime lib newTime = Some second \<and> second \<le> clock_second now"
  shows "r\<lparr>scheduled_time := newTime\<rparr> \<in>
           set (select_due lib now (snd (put_api_scheduled lib i newValue s)))"
    and "isReady s \<Longrightarrow> r\<lparr>scheduled_time := newTime\<rparr> \<in>
           entry ` set (sendMessage_calls
             (cron_tick lib tr now (snd (put_api_scheduled lib i newValue s))))"
proof -
  let ?s' = "snd (put_api_scheduled lib i newValue s)"
  let ?r' = "r\<lparr>scheduled_time := newTime\<rparr>"
  have mem: "?r' \<in> set (scheduled_messages ?s')"
    using assms(1-4) by (rule put_accepts(2))
  have "is_due lib now ?r'" using assms(5) by (simp add: is_due_def)
  then show due: "?r' \<in> set (select_due lib now ?s')"
    using mem assms(3) by (simp add: select_due_set)
  assume "isReady s"
  then have "isReady ?s'" by (simp add: put_other_fields)
  then show "?r' \<in> entry ` set (sendMessage_calls (cron_tick lib tr now ?s'))"
    using due by (rule cron_tick_attempts_due)
qed

lemma put_never_due:
  assumes "datetime lib newTime = None"
  shows "r\<lparr>scheduled_time := newTime\<rparr> \<notin> set (select_due lib later s')"
  using assms by (simp add: select_due_set is_due_def)

text \<open>
  C10, amended. For a pending row the route makes no check of the new value against the
  clock. A value that is stored (a text as it is, a number as its text) is answered with
  success and is in the row afterwards. If \<^verbatim>\<open>datetime()\<close> reads the stored text as a second
  that is not after the clock's, the row is in the due set of a tick at that clock, and a
  ready client is called for it; if \<^verbatim>\<open>datetime()\<close> does not read it, the row is due at no
  clock. A value that is not stored (\<^verbatim>\<open>null\<close>, a boolean, \<^verbatim>\<open>undefined\<close>) is answered 500
  and the state is unchanged. The scheduling route, unlike this one, rejects every request
  whose target time is not after the clock (400, state unchanged).
\<close>

theorem reschedule_unvalidated:
  assumes "r \<in> set (scheduled_messages s)" and "row_id r = i" and "\<not> sent r"
  shows "(\<forall>newTime. stored_text lib newValue = Some newTime \<longrightarrow>
            fst (put_api_scheduled lib i newValue s) = Success \<and>
            r\<lparr>scheduled_time := newTime\<rparr> \<in>
              set (scheduled_messages (snd (put_api_scheduled lib i newValue s))) \<and>
            (\<forall>second. datetime lib newTime = Some second \<and> second \<le> clock_second now \<longrightarrow>
               r\<lparr>scheduled_time := newTime\<rparr> \<in>
                 set (select_due lib now (snd (put_api_scheduled lib i newValue s))) \<and>
               (isReady s \<longrightarrow>
                  r\<lparr>scheduled_time := newTime\<rparr> \<in>
                    entry ` set (sendMessage_calls
                      (cron_tick lib tr now (snd (put_api_scheduled lib i newValue s)))))) \<and>
            (datetime lib newTime = None \<longrightarrow>
               r\<lparr>scheduled_time := newTime\<rparr> \<notin>
                 set (select_due lib later (snd (put_api_scheduled lib i newValue s))))) \<and>
         (stored_text lib newValue = None \<longrightarrow>
            (\<exists>reason. put_api_scheduled lib i newValue s = (Status500 reason, s))) \<and>
         (\<forall>req t. scheduledTime req = Some t \<and> t \<le> now \<longrightarrow>
            rejected (post_api_schedule lib run_ok rnd now b req s) s)"
proof (intro conjI allI impI)
  fix newTime assume "stored_text lib newValue = Some newTime"
  with assms show "fst (put_api_scheduled lib i newValue s) = Success"
    by (rule put_accepts(1))
next
  fix newTime assume "stored_text lib newValue = Some newTime"
  with assms show "r\<lparr>scheduled_time := newTime\<rparr> \<in>
      set (scheduled_messages (snd (put_api_scheduled lib i newValue s)))"
    by (rule put_accepts(2))
next
  fix newTime second
  assume "stored_text lib newValue = Some newTime"
    and "datetime lib newTime = Some second \<and> second \<le> clock_second now"
  with assms show "r\<lparr>scheduled_time := newTime\<rparr> \<in>
      set (select_due lib now (snd (put_api_scheduled lib i newValue s)))"
    by (rule put_due(1))
next
  fix newTime second
  assume "stored_text lib newValue = Some newTime"
    and "datetime lib newTime = Some second \<and> second \<le> clock_second now"
    and "isReady s"
  with assms show "r\<lparr>scheduled_time := newTime\<rparr> \<in>
      entry ` set (sendMessage_calls
        (cron_tick lib tr now (snd (put_api_scheduled lib i newValue s))))"
    by (rule put_due(2))
next
  fix newTime assume "datetime lib newTime = None"
  then show "r\<lparr>scheduled_time := newTime\<rparr> \<notin>
      set (select_due lib later (snd (put_api_scheduled lib i newValue s)))"
    by (rule put_never_due)
next
  assume "stored_text lib newValue = None"
  with assms show "\<exists>reason. put_api_scheduled lib i newValue s = (Status500 reason, s)"
    by (rule put_refused)
next
  fix req :: schedule_request and t
  assume "scheduledTime req = Some t \<and> t \<le> now"
  then show "rejected (post_api_schedule lib run_ok rnd now b req s) s"
    by (intro post_api_schedule_rejects) blast
qed

text \<open>
  C10 fails as stated. \<^verbatim>\<open>null\<close> is not accepted: the column is \<^verbatim>\<open>NOT NULL\<close>, the route
  answers 500 and the row keeps its time. The number 1700000000000, a past instant in
  milliseconds, is accepted, but what is stored is the text \<^verbatim>\<open>1700000000000.0\<close> and not the
  value; \<^verbatim>\<open>datetime()\<close> does not read it, and at a later clock the row is not due (row 2
  is).
\<close>

theorem reschedule_value_counterexample:
  "pending1 \<in> set (scheduled_messages store3) \<and> row_id pending1 = 1 \<and>
   put_api_scheduled example_library 1 Null store3 =
     (Status500 ''NOT NULL constraint failed: scheduled_messages.scheduled_time'', store3) \<and>
   fst (put_api_scheduled example_library 1 (Number 1700000000000) store3) = Success \<and>
   map scheduled_time
     (scheduled_messages (snd (put_api_scheduled example_library 1 (Number 1700000000000) store3))) =
     [''1700000000000.0'', ''1970-01-01T00:00:09.000Z'', ''1970-01-01T00:00:01.000Z''] \<and>
   datetime example_library ''1700000000000.0'' = None \<and>
   map row_id (select_due example_library 1800000000000
     (snd (put_api_scheduled example_library 1 (Number 1700000000000) store3))) = [2]"
  by (simp add: put_api_scheduled_def update_scheduled_time_def store3_def initial_def
      pending1_def select_due_def is_due_def clock_second_def Let_def
      example_library_def example_readings_def)

text \<open>
  Row 1 is rescheduled to the text of second 7 with the clock at second 10: accepted and
  due, while a schedule request for the same instant is rejected. Rescheduled to the number
  7000, it holds the text \<^verbatim>\<open>7000.0\<close>, which \<^verbatim>\<open>datetime()\<close> reads as a Julian day long
  before the epoch: the row is due at once.
\<close>

theorem reschedule_unvalidated_witness:
  "pending1 \<in> set (scheduled_messages store3) \<and> row_id pending1 = 1 \<and> \<not> sent pending1 \<and>
   stored_text example_library (Text ''1970-01-01T00:00:07.000Z'') =
     Some ''1970-01-01T00:00:07.000Z'' \<and>
   datetime example_library ''1970-01-01T00:00:07.000Z'' = Some 7 \<and> 7 \<le> clock_second 10000 \<and>
   fst (put_api_scheduled example_library 1 (Text ''1970-01-01T00:00:07.000Z'') store3) = Success \<and>
   pending1\<lparr>scheduled_time := ''1970-01-01T00:00:07.000Z''\<rparr> \<in>
     set (select_due example_library 10000
       (snd (put_api_scheduled example_library 1 (Text ''1970-01-01T00:00:07.000Z'') store3))) \<and>
   scheduledTime (one_message ''x'' 7000) = Some 7000 \<and>
   rejected (post_api_schedule example_library always half 10000 ''b'' (one_message ''x'' 7000) store3)
     store3 \<and>
   stored_text example_library (Number 7000) = Some ''7000.0'' \<and>
   datetime example_library ''7000.0'' = Some (- 210261960000) \<and>
   fst (put_api_scheduled example_library 1 (Number 7000) store3) = Success \<and>
   pending1\<lparr>scheduled_time := ''7000.0''\<rparr> \<in>
     set (select_due example_library 1000
       (snd (put_api_scheduled example_library 1 (Number 7000) store3)))"
proof -
  have p: "pending1 \<in> set (scheduled_messages store3)" "row_id pending1 = 1" "\<not> sent pending1"
    by (simp_all add: store3_def initial_def pending1_def)
  have st: "stored_text example_library (Text ''1970-01-01T00:00:07.000Z'') =
     Some ''1970-01-01T00:00:07.000Z''"
    by (simp add: stored_text_def)
  have d: "datetime example_library ''1970-01-01T00:00:07.000Z'' = Some 7"
    by (simp add: example_library_def example_readings_def)
  have c: "7 \<le> clock_second 10000"
    by (simp add: clock_second_def)
  have q: "scheduledTime (one_message ''x'' 7000) = Some 7000"
    by (simp add: one_message_def)
  note T = reschedule_unvalidated[OF p, of example_library "Text ''1970-01-01T00:00:07.000Z''"
      10000 all_delivered 10000 always half "''b''"]
  note U = T[THEN conjunct1, THEN spec, THEN mp, OF st]
  note V = U[THEN conjunct2, THEN conjunct2, THEN conjunct1, THEN spec, THEN mp, OF conjI[OF d c]]
  note W = T[THEN conjunct2, THEN conjunct2, THEN spec, THEN spec, THEN mp, OF conjI[OF q]]
  have w: "rejected
      (post_api_schedule example_library always half 10000 ''b'' (one_message ''x'' 7000) store3)
      store3"
    by (rule W) simp
  have st2: "stored_text example_library (Number 7000) = Some ''7000.0''"
    by (simp add: stored_text_def example_library_def)
  have d2: "datetime example_library ''7000.0'' = Some (- 210261960000)"
    by (simp add: example_library_def example_readings_def)
  have c2: "- 210261960000 \<le> clock_second 1000"
    by (simp add: clock_second_def)
  note T2 = reschedule_unvalidated[OF p, of example_library "Number 7000"
      1000 all_delivered 1000 always half "''b''"]
  note U2 = T2[THEN conjunct1, THEN spec, THEN mp, OF st2]
  note V2 = U2[THEN conjunct2, THEN conjunct2, THEN conjunct1, THEN spec, THEN mp,
      OF conjI[OF d2 c2]]
  show ?thesis
    by (intro conjI p st d c U[THEN conjunct1] V[THEN conjunct1] q w st2 d2 U2[THEN conjunct1]
        V2[THEN conjunct1])
qed

section \<open>Invariants of the store under sequences of operations\<close>

lemma post_api_schedule_effect:
  "\<exists>k new. scheduled_messages (snd (post_api_schedule lib run_ok rnd now b req s)) =
              scheduled_messages s @ new \<and>
            sqlite_sequence (snd (post_api_schedule lib run_ok rnd now b req s)) = sqlite_sequence s + k \<and>
            map row_id new = [sqlite_sequence s + 1 ..< sqlite_sequence s + 1 + k] \<and>
            sendMessage_calls (snd (post_api_schedule lib run_ok rnd now b req s)) = sendMessage_calls s"
proof (cases "\<exists>phone msgs t. phoneNumber req = Some phone \<and> messages req = Some msgs \<and>
    scheduledTime req = Some t \<and> phone \<noteq> [] \<and> msgs \<noteq> [] \<and> now < t")
  case False
  then have "snd (post_api_schedule lib run_ok rnd now b req s) = s"
    by (auto simp: post_api_schedule_def split: option.splits)
  then show ?thesis
    by (intro exI[of _ 0] exI[of _ "[]"]) simp
next
  case True
  then obtain phone msgs t where v: "phoneNumber req = Some phone" "messages req = Some msgs"
    "scheduledTime req = Some t" "phone \<noteq> []" "msgs \<noteq> []" "now < t"
    by blast
  let ?k = "writes_done run_ok 0 (length msgs)"
  let ?B = "batch_rows lib rnd phone t b now msgs 0 0 (sqlite_sequence s)"
  have kl: "?k \<le> length msgs" by (rule writes_done_le)
  have "map row_id (take ?k ?B) = take ?k (map row_id ?B)"
    by (rule take_map[symmetric])
  also have "\<dots> = take ?k [sqlite_sequence s + 1 ..< sqlite_sequence s + 1 + length msgs]"
    by (simp only: row_id_batch_rows)
  also have "\<dots> = [sqlite_sequence s + 1 ..< sqlite_sequence s + 1 + ?k]"
    by (rule take_upt) (use kl in simp)
  finally have ids:
    "map row_id (take ?k ?B) = [sqlite_sequence s + 1 ..< sqlite_sequence s + 1 + ?k]" .
  have "scheduled_messages (snd (post_api_schedule lib run_ok rnd now b req s)) =
          scheduled_messages s @ take ?k ?B \<and>
        sqlite_sequence (snd (post_api_schedule lib run_ok rnd now b req s)) = sqlite_sequence s + ?k \<and>
        sendMessage_calls (snd (post_api_schedule lib run_ok rnd now b req s)) = sendMessage_calls s"
    by (simp add: post_api_schedule_valid[OF v] forEach_insert_eq Let_def)
  then show ?thesis using ids by blast
qed

lemma store_ok_append:
  assumes "store_ok s" and "scheduled_messages s' = scheduled_messages s @ new"
    and "sqlite_sequence s' = sqlite_sequence s + k"
    and "map row_id new = [sqlite_sequence s + 1 ..< sqlite_sequence s + 1 + k]"
  shows "store_ok s'"
proof -
  have old: "\<forall>i\<in>set (map row_id (scheduled_messages s)). i \<le> sqlite_sequence s"
    using assms(1) by (simp add: store_ok_def)
  have new: "\<forall>i\<in>set (map row_id new). sqlite_sequence s < i \<and> i \<le> sqlite_sequence s + k"
    unfolding assms(4) by auto
  have disj: "set (map row_id (scheduled_messages s)) \<inter> set (map row_id new) = {}"
    using old new by fastforce
  have d: "distinct (map row_id (scheduled_messages s) @ map row_id new)"
    using assms(1) disj unfolding assms(4) by (simp add: store_ok_def)
  have b: "\<forall>r\<in>set (scheduled_messages s) \<union> set new. row_id r \<le> sqlite_sequence s + k"
    using old new by fastforce
  show ?thesis
    using d b by (simp add: store_ok_def assms(2,3))
qed

lemma store_ok_same_ids:
  assumes "store_ok s" and "map row_id (scheduled_messages s') = map row_id (scheduled_messages s)"
    and "sqlite_sequence s' = sqlite_sequence s"
  shows "store_ok s'"
proof -
  have "set (scheduled_messages s') \<subseteq> {r. row_id r \<in> set (map row_id (scheduled_messages s'))}"
    by auto
  then have "\<forall>r\<in>set (scheduled_messages s'). row_id r \<in> row_id ` set (scheduled_messages s)"
    unfolding assms(2) by auto
  then have "\<forall>r\<in>set (scheduled_messages s'). row_id r \<le> sqlite_sequence s"
    using assms(1) by (auto simp: store_ok_def)
  then show ?thesis
    using assms by (simp add: store_ok_def)
qed

lemma store_ok_filter:
  assumes "store_ok s" and "scheduled_messages s' = filter P (scheduled_messages s)"
    and "sqlite_sequence s' = sqlite_sequence s"
  shows "store_ok s'"
  using assms by (simp add: store_ok_def distinct_map_filter)

lemma update_id_preserved:
  "map row_id (scheduled_messages (snd (update_scheduled_time i newTime s))) =
   map row_id (scheduled_messages s)"
  unfolding update_rows map_map by (rule map_cong[OF refl]) simp

lemma put_id_preserved:
  "map row_id (scheduled_messages (snd (put_api_scheduled lib i newValue s))) =
   map row_id (scheduled_messages s)"
  by (cases newValue) (simp_all add: put_api_scheduled_def update_id_preserved)

lemma put_keeps_sent:
  assumes "r \<in> set (scheduled_messages s)" and "sent r"
  shows "r \<in> set (scheduled_messages (snd (put_api_scheduled lib i newValue s)))"
proof (cases "stored_text lib newValue")
  case None
  then show ?thesis using assms(1) by (simp add: put_not_stored)
next
  case (Some t)
  let ?f = "\<lambda>r. if row_id r = i \<and> \<not> sent r then r\<lparr>scheduled_time := t\<rparr> else r"
  have "?f r \<in> ?f ` set (scheduled_messages s)" using assms(1) by (rule imageI)
  moreover have "?f r = r" using assms(2) by simp
  ultimately show ?thesis by (simp add: put_stored[OF Some] update_rows)
qed

lemma delete_one_fields:
  "scheduled_messages (snd (delete_api_scheduled i s)) =
     filter (\<lambda>r. \<not> (row_id r = i \<and> \<not> sent r)) (scheduled_messages s)"
  "sqlite_sequence (snd (delete_api_scheduled i s)) = sqlite_sequence s"
  "sendMessage_calls (snd (delete_api_scheduled i s)) = sendMessage_calls s"
  by (simp_all add: delete_api_scheduled_def Let_def)

lemma delete_batch_fields:
  "scheduled_messages (snd (delete_api_scheduled_batch b s)) =
     filter (\<lambda>r. \<not> (batch_id r = b \<and> \<not> sent r)) (scheduled_messages s)"
  "sqlite_sequence (snd (delete_api_scheduled_batch b s)) = sqlite_sequence s"
  "sendMessage_calls (snd (delete_api_scheduled_batch b s)) = sendMessage_calls s"
  by (simp_all add: delete_api_scheduled_batch_def Let_def)

lemma cron_tick_fields:
  "scheduled_messages (cron_tick lib tr now s) =
     map (mark_all (if isReady s then delivered_ids tr (select_due lib now s) else {}))
       (scheduled_messages s)"
  "sqlite_sequence (cron_tick lib tr now s) = sqlite_sequence s"
  "sendMessage_calls (cron_tick lib tr now s) =
     sendMessage_calls s @ map (call_of tr) (if isReady s then select_due lib now s else [])"
  by (simp_all add: cron_tick_def send_loop_rows send_loop_calls send_loop_other)

lemma apply_op_store_ok:
  assumes "store_ok s"
  shows "store_ok (apply_op lib op s)"
proof (cases op)
  case (Schedule run_ok rnd now b req)
  obtain k new where
    "scheduled_messages (snd (post_api_schedule lib run_ok rnd now b req s)) = scheduled_messages s @ new"
    "sqlite_sequence (snd (post_api_schedule lib run_ok rnd now b req s)) = sqlite_sequence s + k"
    "map row_id new = [sqlite_sequence s + 1 ..< sqlite_sequence s + 1 + k]"
    using post_api_schedule_effect[of lib run_ok rnd now b req s] by blast
  then have "store_ok (snd (post_api_schedule lib run_ok rnd now b req s))"
    using assms by (rule store_ok_append[rotated])
  then show ?thesis using Schedule by simp
next
  case (Reschedule i t)
  have "store_ok (snd (put_api_scheduled lib i t s))"
    using assms put_id_preserved put_other_fields(2) by (rule store_ok_same_ids)
  then show ?thesis using Reschedule by simp
next
  case (Delete_one i)
  have "store_ok (snd (delete_api_scheduled i s))"
    using assms delete_one_fields(1,2) by (rule store_ok_filter)
  then show ?thesis using Delete_one by simp
next
  case (Delete_batch b)
  have "store_ok (snd (delete_api_scheduled_batch b s))"
    using assms delete_batch_fields(1,2) by (rule store_ok_filter)
  then show ?thesis using Delete_batch by simp
next
  case (Tick tr now)
  have a: "map row_id (scheduled_messages (cron_tick lib tr now s)) = map row_id (scheduled_messages s)"
    unfolding cron_tick_fields(1) map_map by (rule map_cong[OF refl]) simp
  have "store_ok (cron_tick lib tr now s)"
    using assms a cron_tick_fields(2) by (rule store_ok_same_ids)
  then show ?thesis using Tick by simp
next
  case (Ready b)
  then show ?thesis using assms by (simp add: store_ok_def)
qed

lemma mark_all_sent: "sent r \<Longrightarrow> mark_all D r = r"
  by (simp add: mark_all_def)

lemma apply_op_keeps_sent:
  assumes "r \<in> set (scheduled_messages s)" and "sent r"
  shows "r \<in> set (scheduled_messages (apply_op lib op s))"
proof (cases op)
  case (Schedule run_ok rnd now b req)
  obtain k new where
    "scheduled_messages (snd (post_api_schedule lib run_ok rnd now b req s)) = scheduled_messages s @ new"
    using post_api_schedule_effect[of lib run_ok rnd now b req s] by blast
  then show ?thesis using Schedule assms(1) by simp
next
  case (Reschedule i t)
  then show ?thesis using assms by (simp add: put_keeps_sent)
next
  case (Delete_one i)
  then show ?thesis using assms by (simp add: delete_one_fields)
next
  case (Delete_batch b)
  then show ?thesis using assms by (simp add: delete_batch_fields)
next
  case (Tick tr now)
  let ?D = "if isReady s then delivered_ids tr (select_due lib now s) else {}"
  have "mark_all ?D r \<in> mark_all ?D ` set (scheduled_messages s)" using assms(1) by (rule imageI)
  moreover have "mark_all ?D r = r" using assms(2) by (rule mark_all_sent)
  ultimately show ?thesis using Tick by (simp add: cron_tick_fields(1))
next
  case (Ready b)
  then show ?thesis using assms by simp
qed

lemma run_store_ok: "store_ok s \<Longrightarrow> store_ok (run lib ops s)"
  by (induction ops arbitrary: s) (auto simp: apply_op_store_ok)

lemma run_keeps_sent:
  "r \<in> set (scheduled_messages s) \<Longrightarrow> sent r \<Longrightarrow> r \<in> set (scheduled_messages (run lib ops s))"
  by (induction ops arbitrary: s) (auto simp: apply_op_keeps_sent)

lemma store_ok_initial: "store_ok initial"
  by (simp add: store_ok_def initial_def)

lemma apply_op_calls:
  "sendMessage_calls (apply_op lib op s) =
     sendMessage_calls s @
     (case op of Tick tr now \<Rightarrow> map (call_of tr) (if isReady s then select_due lib now s else [])
      | _ \<Rightarrow> [])"
proof (cases op)
  case (Schedule run_ok rnd now b req)
  have "sendMessage_calls (snd (post_api_schedule lib run_ok rnd now b req s)) = sendMessage_calls s"
    using post_api_schedule_effect[of lib run_ok rnd now b req s] by blast
  then show ?thesis using Schedule by simp
qed (simp_all add: put_other_fields delete_one_fields delete_batch_fields cron_tick_fields)

lemma delivered_append:
  "sendMessage_calls s' = sendMessage_calls s @ map (call_of tr) q \<Longrightarrow>
   delivered s' = delivered s @ map row_id (filter (\<lambda>m. tr m \<noteq> Send_rejected) q)"
  by (simp add: delivered_def call_of_def filter_map o_def)

lemma delivered_once_tick:
  assumes ok: "store_ok s" and inv: "delivered_once s" and up: "\<forall>m. tr m \<noteq> Update_failed"
  shows "delivered_once (cron_tick lib tr now s)"
proof (cases "isReady s")
  case False
  then show ?thesis using inv by (simp add: cron_tick_def)
next
  case True
  let ?q = "select_due lib now s"
  let ?s' = "cron_tick lib tr now s"
  let ?new = "map row_id (filter (\<lambda>m. tr m \<noteq> Send_rejected) ?q)"
  have del: "delivered ?s' = delivered s @ ?new"
    by (rule delivered_append) (simp add: cron_tick_fields(3) True)
  have dq: "distinct (map row_id ?q)"
    using ok by (simp add: store_ok_def select_due_def distinct_map_filter)
  have dnew: "distinct ?new"
    using dq by (simp add: distinct_map_filter)
  have fresh: "set (delivered s) \<inter> set ?new = {}"
  proof (rule ccontr)
    assume "set (delivered s) \<inter> set ?new \<noteq> {}"
    then obtain i where i: "i \<in> set (delivered s)" "i \<in> set ?new" by blast
    from i(1) inv obtain r where r: "r \<in> set (scheduled_messages s)" "row_id r = i" "sent r"
      by (auto simp: delivered_once_def)
    from i(2) obtain m where m: "m \<in> set ?q" "row_id m = i" by auto
    then have m': "m \<in> set (scheduled_messages s)" "\<not> sent m" by (simp_all add: select_due_set)
    have "r = m"
      using ok r(1) m'(1) r(2) m(2) by (intro distinct_ids_unique) (simp_all add: store_ok_def)
    then show False using r(3) m'(2) by simp
  qed
  have d: "distinct (delivered ?s')"
    using inv dnew fresh by (simp add: del delivered_once_def)
  have e: "\<exists>r\<in>set (scheduled_messages ?s'). row_id r = i \<and> sent r" if "i \<in> set (delivered ?s')" for i
  proof (cases "i \<in> set (delivered s)")
    case True
    then obtain r where r: "r \<in> set (scheduled_messages s)" "row_id r = i" "sent r"
      using inv by (auto simp: delivered_once_def)
    have "r \<in> set (scheduled_messages (apply_op lib (Tick tr now) s))"
      using r(1,3) by (rule apply_op_keeps_sent)
    then show ?thesis using r(2,3) by auto
  next
    case False
    then have "i \<in> set ?new" using that by (simp add: del)
    then obtain m where m: "m \<in> set ?q" "row_id m = i" "tr m \<noteq> Send_rejected" by auto
    have "tr m = Delivered" using m(3) up by (cases "tr m") auto
    then have "m\<lparr>sent := True\<rparr> \<in> set (scheduled_messages ?s')"
      using \<open>isReady s\<close> m(1) by (intro tick_marks_delivered(1))
    then show ?thesis using m(2) by (intro bexI[of _ "m\<lparr>sent := True\<rparr>"]) simp_all
  qed
  show ?thesis
    using d e by (simp add: delivered_once_def)
qed

lemma apply_op_delivered_once:
  assumes "store_ok s" and "delivered_once s" and "updates_succeed op"
  shows "delivered_once (apply_op lib op s)"
proof (cases "\<exists>tr now. op = Tick tr now")
  case True
  then show ?thesis using assms by (auto simp: delivered_once_tick)
next
  case False
  then have c: "sendMessage_calls (apply_op lib op s) = sendMessage_calls s"
    using apply_op_calls[of lib op s] by (cases op) simp_all
  then have d: "delivered (apply_op lib op s) = delivered s"
    by (simp add: delivered_def)
  have "\<exists>r\<in>set (scheduled_messages (apply_op lib op s)). row_id r = i \<and> sent r"
    if "i \<in> set (delivered s)" for i
  proof -
    from that assms(2) obtain r where r: "r \<in> set (scheduled_messages s)" "row_id r = i" "sent r"
      by (auto simp: delivered_once_def)
    have "r \<in> set (scheduled_messages (apply_op lib op s))"
      using r(1,3) by (rule apply_op_keeps_sent)
    then show ?thesis using r(2,3) by auto
  qed
  then show ?thesis
    using assms(2) by (simp add: delivered_once_def d)
qed

lemma run_delivered_once:
  "store_ok s \<Longrightarrow> delivered_once s \<Longrightarrow> \<forall>op\<in>set ops. updates_succeed op \<Longrightarrow>
   delivered_once (run lib ops s)"
proof (induction ops arbitrary: s)
  case Nil
  then show ?case by simp
next
  case (Cons op ops)
  have "store_ok (apply_op lib op s)" using Cons.prems(1) by (rule apply_op_store_ok)
  moreover have "delivered_once (apply_op lib op s)"
    using Cons.prems by (intro apply_op_delivered_once) simp_all
  ultimately show ?case using Cons.IH Cons.prems(3) by simp
qed

lemma delivered_once_initial: "delivered_once initial"
  by (simp add: delivered_once_def delivered_def initial_def)

text \<open>
  C6, amended. In every state reached from the empty store by scheduling, rescheduling,
  deleting, ticks that run one after another and changes of readiness: a row that is sent
  stays in the table, unchanged, through every further sequence of operations, and it is
  the only row of its id (a sent flag never goes back, and ids are not used again). If in
  addition no tick meets a failing \<^verbatim>\<open>UPDATE\<close> after a send that resolved, no row id is
  delivered twice.
\<close>

theorem sent_is_final:
  "(\<forall>r\<in>set (scheduled_messages (run lib ops initial)). sent r \<longrightarrow>
      r \<in> set (scheduled_messages (run lib later (run lib ops initial))) \<and>
      (\<forall>q\<in>set (scheduled_messages (run lib later (run lib ops initial))). row_id q = row_id r \<longrightarrow> q = r)) \<and>
   ((\<forall>op\<in>set ops. updates_succeed op) \<longrightarrow> distinct (delivered (run lib ops initial)))"
proof (intro conjI ballI impI)
  fix r assume r: "r \<in> set (scheduled_messages (run lib ops initial))" "sent r"
  then show k: "r \<in> set (scheduled_messages (run lib later (run lib ops initial)))"
    by (rule run_keeps_sent)
  fix q assume q: "q \<in> set (scheduled_messages (run lib later (run lib ops initial)))" "row_id q = row_id r"
  have "store_ok (run lib later (run lib ops initial))"
    by (intro run_store_ok store_ok_initial)
  then have "distinct (map row_id (scheduled_messages (run lib later (run lib ops initial))))"
    by (simp add: store_ok_def)
  then show "q = r" using q(1) k q(2) by (rule distinct_ids_unique)
next
  assume "\<forall>op\<in>set ops. updates_succeed op"
  then have "delivered_once (run lib ops initial)"
    by (intro run_delivered_once store_ok_initial delivered_once_initial)
  then show "distinct (delivered (run lib ops initial))"
    by (simp add: delivered_once_def)
qed

text \<open>
  After the two schedules and the tick of \<open>late_then_early\<close>, row 1 is sent; rescheduling
  it (with a text, with \<^verbatim>\<open>null\<close>), deleting it, deleting its batch and a further tick leave
  it in place, and the ids delivered are 1 and 2, once each.
\<close>

theorem sent_is_final_witness:
  "sent_row \<in> set (scheduled_messages (run example_library late_then_early initial)) \<and> sent sent_row \<and>
   sent_row \<in> set (scheduled_messages (run example_library tamper (run example_library late_then_early initial))) \<and>
   list_all updates_succeed late_then_early \<and>
   delivered (run example_library late_then_early initial) = [1, 2] \<and>
   distinct (delivered (run example_library late_then_early initial))"
proof -
  have a: "sent_row \<in> set (scheduled_messages (run example_library late_then_early initial))"
    by (simp add: late_then_early_def initial_def post_api_schedule_def one_message_def always_def
      insert_row_def cron_tick_def select_due_def is_due_def clock_second_def
      example_library_def example_instants_def example_readings_def
      dispatch_one_def all_delivered_def mark_sent_def to_chatId_def Let_def
      sent_row_def)
  have b: "sent sent_row" by (simp add: sent_row_def)
  have c: "\<forall>op\<in>set late_then_early. updates_succeed op"
    by (simp add: late_then_early_def all_delivered_def)
  have d: "delivered (run example_library late_then_early initial) = [1, 2]"
    by (simp add: late_then_early_def initial_def post_api_schedule_def one_message_def always_def
      insert_row_def cron_tick_def select_due_def is_due_def clock_second_def
      example_library_def example_instants_def example_readings_def
      dispatch_one_def all_delivered_def mark_sent_def to_chatId_def Let_def
      delivered_def)
  note T = sent_is_final[of example_library late_then_early tamper]
  have e: "sent_row \<in> set (scheduled_messages (run example_library tamper (run example_library late_then_early initial)))"
    using T[THEN conjunct1, THEN bspec, OF a, THEN mp, OF b] by (rule conjunct1)
  have f: "distinct (delivered (run example_library late_then_early initial))"
    using T[THEN conjunct2, THEN mp, OF c] .
  have g: "list_all updates_succeed late_then_early"
    using c by (simp add: list_all_iff)
  show ?thesis
    by (intro conjI a b e g d f)
qed

section \<open>Overlapping ticks\<close>

lemma event_loop_idle:
  "event_loop lib tr (replicate n (Resume 0)) [[]] s = s"
  by (induction n) auto

lemma event_loop_alone:
  "event_loop lib tr (replicate (length q) (Resume 0)) [q] s = send_loop tr q s"
  by (induction q arbitrary: s) auto

text \<open>
  An invocation that runs alone, to the end of its list, is the tick \<open>cron_tick\<close>.
\<close>

lemma event_loop_single_tick:
  "event_loop lib tr (Fire now # replicate (length (select_due lib now s)) (Resume 0)) [] s =
   cron_tick lib tr now s"
  by (simp add: cron_tick_def event_loop_idle event_loop_alone)

text \<open>
  C6 fails as stated. Three rows are due. An invocation starts and sends row 1; while it
  pauses, the next tick starts a second invocation, whose query still finds row 2 unsent
  and which sends it; the first invocation goes on with its own list and sends row 2
  again.
\<close>

theorem overlapping_ticks_send_twice:
  "map (\<lambda>r. (row_id r, sent r)) (scheduled_messages three_due) =
     [(1, False), (2, False), (3, False)] \<and>
   delivered (event_loop example_library all_delivered overlap [] three_due) = [1, 2, 2] \<and>
   \<not> distinct (delivered (event_loop example_library all_delivered overlap [] three_due))"
  by (simp add: overlap_def three_due_def entry_at_def select_due_def is_due_def clock_second_def
      dispatch_one_def all_delivered_def mark_sent_def delivered_def Let_def
      example_library_def example_instants_def example_readings_def)

section \<open>The handlers of server.js\<close>

text \<open>
  The tick, the batch deletion and (for a text that leaves messages) the scheduling route of
  \<^verbatim>\<open>server.js\<close> change the table, the counter and the calls of \<^verbatim>\<open>sendMessage\<close> as
  the routes of the WebSocket server do; only the broadcasts are missing. What is proved
  above of the rows and of the calls therefore holds for both files.
\<close>

lemma dispatch_one_minute_eq:
  "dispatch_one_minute tr m (s\<lparr>broadcasts := b\<rparr>) = (dispatch_one tr m s)\<lparr>broadcasts := b\<rparr>"
  by (cases "tr m") (simp_all add: dispatch_one_minute_def dispatch_one_def mark_sent_def
      broadcast_scheduled_def Let_def)

lemma send_loop_minute_eq:
  "send_loop_minute tr q (s\<lparr>broadcasts := b\<rparr>) = (send_loop tr q s)\<lparr>broadcasts := b\<rparr>"
  by (induction q arbitrary: s) (simp_all add: dispatch_one_minute_eq)

lemma select_due_broadcasts [simp]:
  "select_due lib now (s\<lparr>broadcasts := b\<rparr>) = select_due lib now s"
  by (simp add: select_due_def)

lemma cron_tick_minute_eq:
  "cron_tick_minute lib tr now s = (cron_tick lib tr now s)\<lparr>broadcasts := broadcasts s\<rparr>"
proof -
  have "send_loop_minute tr q s = (send_loop tr q s)\<lparr>broadcasts := broadcasts s\<rparr>" for q
    using send_loop_minute_eq[where tr = tr and q = q and s = s and b = "broadcasts s"] by simp
  then show ?thesis
    by (simp add: cron_tick_minute_def cron_tick_def)
qed

lemma delete_api_scheduled_batch_count_eq:
  "snd (delete_api_scheduled_batch_count b s) =
     (snd (delete_api_scheduled_batch b s))\<lparr>broadcasts := broadcasts s\<rparr>"
  by (simp add: delete_api_scheduled_batch_count_def delete_api_scheduled_batch_def
      broadcast_scheduled_def Let_def)

lemma post_api_schedule_text_eq:
  assumes "message_t req = Some text" and "text \<noteq> []"
    and "filter (\<lambda>m. length m > 0) (map trim (split CHR ''/'' text)) = msgs" and "msgs \<noteq> []"
  shows "snd (post_api_schedule_text lib run_ok rnd now b req s) =
     (snd (post_api_schedule lib run_ok rnd now b
        \<lparr>phoneNumber = phoneNumber_t req, messages = Some msgs,
         scheduledTime = scheduledTime_t req\<rparr> s))\<lparr>broadcasts := broadcasts s\<rparr>"
  using assms
  by (auto simp: post_api_schedule_text_def post_api_schedule_def Let_def broadcast_scheduled_def
      forEach_insert_eq split: option.splits)

end
